theory Spec2Isabelle
  imports Complex_Main
begin

section \<open>JavaScript values used by the batch manager\<close>

text \<open>
  Strings are lists of code units. The model covers code units below 256 (Latin-1), so the
  white space of \<^verbatim>\<open>String.prototype.trim\<close> and of the regular expression class
  \<^verbatim>\<open>\s\<close> is TAB, LF, VT, FF, CR, SPACE and NBSP, and the line terminators that the
  regular expression dot refuses are LF and CR.
\<close>

datatype js_error = TypeError string | ExecaError "int option" string | FsError string | NotFound string

datatype jsval = JUndefined | JNull | JNum int | JStr string

definition is_ws :: "char \<Rightarrow> bool" where
  "is_ws c \<longleftrightarrow> c \<in> set [CHR 0x09, CHR 0x0A, CHR 0x0B, CHR 0x0C, CHR 0x0D, CHR 0x20, CHR 0xA0]"

definition is_lt :: "char \<Rightarrow> bool" where
  "is_lt c \<longleftrightarrow> c = CHR 0x0A \<or> c = CHR 0x0D"

definition is_digit :: "char \<Rightarrow> bool" where
  "is_digit c \<longleftrightarrow> c \<in> set ''0123456789''"

definition str_startsWith :: "string \<Rightarrow> string \<Rightarrow> bool" where
  "str_startsWith s p \<longleftrightarrow> take (length p) s = p"

definition str_endsWith :: "string \<Rightarrow> string \<Rightarrow> bool" where
  "str_endsWith s p \<longleftrightarrow> length p \<le> length s \<and> drop (length s - length p) s = p"

primrec str_includes :: "string \<Rightarrow> string \<Rightarrow> bool" where
  "str_includes [] p \<longleftrightarrow> p = []"
| "str_includes (c # cs) p \<longleftrightarrow> str_startsWith (c # cs) p \<or> str_includes cs p"

definition str_trim :: "string \<Rightarrow> string" where
  "str_trim s = rev (dropWhile is_ws (rev (dropWhile is_ws s)))"

text \<open>\<^verbatim>\<open>s.split('\n')\<close>: the pieces between line feeds; never the empty list.\<close>

fun str_split :: "string \<Rightarrow> string list" where
  "str_split [] = [[]]"
| "str_split (c # cs) =
     (if c = CHR 0x0A then [] # str_split cs
      else (case str_split cs of [] \<Rightarrow> [[c]] | l # ls \<Rightarrow> (c # l) # ls))"

definition to_lower :: "char \<Rightarrow> char" where
  "to_lower c = (if c \<in> set ''ABCDEFGHIJKLMNOPQRSTUVWXYZ'' then char_of (of_char c + (32::nat)) else c)"

text \<open>Prefix test of a case-insensitive regular expression literal (ASCII folding).\<close>

definition ci_startsWith :: "string \<Rightarrow> string \<Rightarrow> bool" where
  "ci_startsWith s p \<longleftrightarrow> map to_lower (take (length p) s) = map to_lower p"

text \<open>Decimal numerals: the rendering of an integer below \<open>2 ^ 53\<close> in a template
  literal (array lengths, indices and readings of the clock are such integers).\<close>

definition digit_val :: "char \<Rightarrow> nat" where
  "digit_val c = of_char c - 48"

function show_nat :: "nat \<Rightarrow> string" where
  "show_nat n = (if n < 10 then [''0123456789'' ! n] else show_nat (n div 10) @ [''0123456789'' ! (n mod 10)])"
  by pat_completeness auto
termination
  by (relation "measure id") auto

definition show_int :: "int \<Rightarrow> string" where
  "show_int i = (if i < 0 then ''-'' @ show_nat (nat (- i)) else show_nat (nat i))"

text \<open>
  A number that \<^verbatim>\<open>parseInt\<close> returns for a run of decimal digits: the double
  nearest to the integer that the digits denote, ties going to the even significand, or
  \<open>+\<infinity>\<close> beyond the range of the doubles. Such a double is an integer; \<open>to_double\<close> keeps the
  53 leading bits of its argument.
\<close>

datatype js_number = Finite nat | Infinity

function bit_length :: "nat \<Rightarrow> nat" where
  "bit_length n = (if n = 0 then 0 else Suc (bit_length (n div 2)))"
  by pat_completeness auto
termination
  by (relation "measure id") auto

definition to_double :: "nat \<Rightarrow> js_number" where
  "to_double n =
     (let e = bit_length n - 53;
          q = n div 2 ^ e;
          r = n mod 2 ^ e;
          q' = (if 2 * r > 2 ^ e \<or> (2 * r = 2 ^ e \<and> odd q) then q + 1 else q)
      in if q' * 2 ^ e < 2 ^ 1024 then Finite (q' * 2 ^ e) else Infinity)"

definition parseInt :: "string \<Rightarrow> js_number" where
  "parseInt ds = to_double (foldl (\<lambda>a c. 10 * a + digit_val c) 0 ds)"

definition is_positive :: "js_number \<Rightarrow> bool" where
  "is_positive v = (case v of Finite n \<Rightarrow> 0 < n | Infinity \<Rightarrow> True)"

text \<open>
  The text of a number in a template literal (\<^verbatim>\<open>Number::toString\<close>): the digits
  \<open>s\<close> are the fewest such that \<open>s\<close> followed by zeros up to \<open>n\<close> digits is a numeral of the
  number, that is, rounds to it; among the candidates with that many digits the one
  nearest to the number, the even one on a tie. \<open>shortest_at x k\<close> looks for \<open>k\<close> digits
  among the two decimals of \<open>k\<close> digits that enclose \<open>x\<close>. Up to 21 digits the numeral is
  written out, from 22 digits on in exponent form. Below \<open>2 ^ 53\<close> every integer is a
  double and its text is its decimal numeral.
\<close>

definition shortest_at :: "nat \<Rightarrow> nat \<Rightarrow> (nat \<times> nat) option" where
  "shortest_at x k =
     (let n = length (show_nat x);
          j = n - k;
          lo = x div 10 ^ j;
          hi = lo + 1;
          ok_lo = (to_double (lo * 10 ^ j) = Finite x);
          ok_hi = (to_double (hi * 10 ^ j) = Finite x);
          up = (if hi = 10 ^ k then (10 ^ (k - 1), n + 1) else (hi, n))
      in if ok_lo \<and> ok_hi
         then (if x - lo * 10 ^ j < hi * 10 ^ j - x \<or> (x - lo * 10 ^ j = hi * 10 ^ j - x \<and> even lo)
               then Some (lo, n) else Some up)
         else if ok_lo then Some (lo, n)
         else if ok_hi then Some up
         else None)"

definition shortest :: "nat \<Rightarrow> nat \<times> nat" where
  "shortest x =
     (case List.map_filter (shortest_at x) [1 ..< Suc (length (show_nat x))] of
        [] \<Rightarrow> (x, length (show_nat x))
      | r # _ \<Rightarrow> r)"

definition number_text :: "js_number \<Rightarrow> string" where
  "number_text v =
     (case v of
        Infinity \<Rightarrow> ''Infinity''
      | Finite x \<Rightarrow>
          if x < 2 ^ 53 then show_nat x
          else (case shortest x of
                  (s, n) \<Rightarrow>
                    let ds = show_nat s
                    in if n \<le> 21 then ds @ replicate (n - length ds) (CHR ''0'')
                       else (if length ds = 1 then ds else hd ds # ''.'' @ tl ds)
                            @ ''e+'' @ show_nat (n - 1)))"

text \<open>Reading a property of \<^verbatim>\<open>null\<close> throws; \<open>deref\<close> is that read.\<close>

definition deref :: "'a option \<Rightarrow> js_error + 'a" where
  "deref m = (case m of None \<Rightarrow> Inl (TypeError ''Cannot read properties of null'') | Some v \<Rightarrow> Inr v)"

definition bind :: "js_error + 'a \<Rightarrow> ('a \<Rightarrow> js_error + 'b) \<Rightarrow> js_error + 'b" where
  "bind r f = (case r of Inl e \<Rightarrow> Inl e | Inr v \<Rightarrow> f v)"

section \<open>Regular expressions of the parsers\<close>

text \<open>
  \<^verbatim>\<open>String.prototype.match\<close> without the global flag returns the leftmost match:
  \<open>regex_search\<close> tries the anchored matcher at every start position in turn.
\<close>

fun regex_search :: "(string \<Rightarrow> 'a option) \<Rightarrow> string \<Rightarrow> 'a option" where
  "regex_search f [] = f []"
| "regex_search f (c # cs) = (case f (c # cs) of Some g \<Rightarrow> Some g | None \<Rightarrow> regex_search f cs)"

text \<open>Greedy \<^verbatim>\<open>\s*\<close> followed by a continuation: the longest run of white space first,
  then one character less, down to none (\<open>k\<close> counts the characters taken).\<close>

fun ws_star :: "nat \<Rightarrow> string \<Rightarrow> (string \<Rightarrow> 'a option) \<Rightarrow> 'a option" where
  "ws_star 0 s k = k s"
| "ws_star (Suc n) s k = (case k (drop (Suc n) s) of Some g \<Rightarrow> Some g | None \<Rightarrow> ws_star n s k)"

definition ws_greedy :: "string \<Rightarrow> (string \<Rightarrow> 'a option) \<Rightarrow> 'a option" where
  "ws_greedy s k = ws_star (length (takeWhile is_ws s)) s k"

text \<open>Lazy \<^verbatim>\<open>(.+?)\<close> followed by a continuation: the shortest non-empty run of
  characters other than line terminators after which the continuation matches. The
  continuation receives the group and the rest.\<close>

fun dot_lazy :: "string \<Rightarrow> string \<Rightarrow> (string \<Rightarrow> string \<Rightarrow> 'a option) \<Rightarrow> 'a option" where
  "dot_lazy acc [] k = None"
| "dot_lazy acc (c # cs) k =
     (if is_lt c then None
      else (case k (acc @ [c]) cs of Some g \<Rightarrow> Some g | None \<Rightarrow> dot_lazy (acc @ [c]) cs k))"

text \<open>\<^verbatim>\<open>/(?:WARN-NEW|FAIL-NEW):\s*(.+?)(?:\s*\[|\s*$)/\<close>, returning group 1.\<close>

definition zap_title_tail :: "string \<Rightarrow> bool" where
  "zap_title_tail t \<longleftrightarrow> str_startsWith (dropWhile is_ws t) ''['' \<or> dropWhile is_ws t = []"

definition zap_title_at :: "string \<Rightarrow> string option" where
  "zap_title_at s =
     (if str_startsWith s ''WARN-NEW:'' \<or> str_startsWith s ''FAIL-NEW:''
      then ws_greedy (drop 9 s) (\<lambda>r. dot_lazy [] r (\<lambda>g t. if zap_title_tail t then Some g else None))
      else None)"

definition zap_title_regex :: "string \<Rightarrow> string option" where
  "zap_title_regex line = regex_search zap_title_at line"

text \<open>\<^verbatim>\<open>\s+\<close> before a literal that starts with a letter: the whole run of white space,
  which must not be empty.\<close>

definition ws_plus :: "string \<Rightarrow> string option" where
  "ws_plus s = (if takeWhile is_ws s = [] then None else Some (dropWhile is_ws s))"

text \<open>\<^verbatim>\<open>/(\d+)\s+alerts?\s+found/i\<close>, returning group 1.\<close>

definition zap_alerts_at :: "string \<Rightarrow> string option" where
  "zap_alerts_at s =
     (let ds = takeWhile is_digit s in
      if ds = [] then None
      else (case ws_plus (dropWhile is_digit s) of
              None \<Rightarrow> None
            | Some r \<Rightarrow>
                if \<not> ci_startsWith r ''alert'' then None
                else (let r1 = drop 5 r;
                          r2 = (if ci_startsWith r1 ''s'' then drop 1 r1 else r1)
                      in (case ws_plus r2 of
                            None \<Rightarrow> None
                          | Some r3 \<Rightarrow> if ci_startsWith r3 ''found'' then Some ds else None))))"

definition zap_alerts_regex :: "string \<Rightarrow> string option" where
  "zap_alerts_regex line = regex_search zap_alerts_at line"

text \<open>\<^verbatim>\<open>/\+\s*(.+?):\s*(.+)/\<close>, returning groups 1 and 2. The last group is greedy:
  the longest run of characters other than line terminators.\<close>

definition nikto_desc :: "string \<Rightarrow> string option" where
  "nikto_desc u = (if takeWhile (\<lambda>c. \<not> is_lt c) u = [] then None else Some (takeWhile (\<lambda>c. \<not> is_lt c) u))"

definition nikto_vuln_at :: "string \<Rightarrow> (string \<times> string) option" where
  "nikto_vuln_at s =
     (if str_startsWith s ''+''
      then ws_greedy (drop 1 s) (\<lambda>r. dot_lazy [] r (\<lambda>g t.
             if str_startsWith t '':''
             then ws_greedy (drop 1 t) (\<lambda>u. map_option (Pair g) (nikto_desc u))
             else None))
      else None)"

definition nikto_vuln_regex :: "string \<Rightarrow> (string \<times> string) option" where
  "nikto_vuln_regex line = regex_search nikto_vuln_at line"

text \<open>\<^verbatim>\<open>/(\d+)\s+(items checked|requests made)/\<close>, returning the whole match.\<close>

definition nikto_stats_at :: "string \<Rightarrow> string option" where
  "nikto_stats_at s =
     (let ds = takeWhile is_digit s; r0 = dropWhile is_digit s in
      if ds = [] then None
      else (case ws_plus r0 of
              None \<Rightarrow> None
            | Some r \<Rightarrow>
                if str_startsWith r ''items checked'' then Some (ds @ takeWhile is_ws r0 @ ''items checked'')
                else if str_startsWith r ''requests made'' then Some (ds @ takeWhile is_ws r0 @ ''requests made'')
                else None))"

definition nikto_stats_regex :: "string \<Rightarrow> string option" where
  "nikto_stats_regex line = regex_search nikto_stats_at line"

text \<open>\<^verbatim>\<open>/(\d+)\s+(pages|forms)\s+found/\<close>, returning the whole match.\<close>

definition wapiti_stats_at :: "string \<Rightarrow> string option" where
  "wapiti_stats_at s =
     (let ds = takeWhile is_digit s; r0 = dropWhile is_digit s in
      if ds = [] then None
      else (case ws_plus r0 of
              None \<Rightarrow> None
            | Some r \<Rightarrow>
                (let w = (if str_startsWith r ''pages'' then Some ''pages''
                          else if str_startsWith r ''forms'' then Some ''forms'' else None)
                 in (case w of
                       None \<Rightarrow> None
                     | Some wd \<Rightarrow>
                         (case ws_plus (drop 5 r) of
                            None \<Rightarrow> None
                          | Some r3 \<Rightarrow>
                              if str_startsWith r3 ''found''
                              then Some (ds @ takeWhile is_ws r0 @ wd @ takeWhile is_ws (drop 5 r) @ ''found'')
                              else None)))))"

definition wapiti_stats_regex :: "string \<Rightarrow> string option" where
  "wapiti_stats_regex line = regex_search wapiti_stats_at line"

section \<open>Findings\<close>

text \<open>
  A finding is an object literal; the parsers of the text output set five fields (four in
  the placeholder of an unknown tool), the Nikto parser adds \<open>identifier\<close> (here \<open>fidentifier\<close>), the summary
  of the automation framework adds \<open>alertCount\<close>, and the alerts of a structured report
  carry the remaining ones. An absent field is \<open>None\<close> or \<open>JUndefined\<close>.
\<close>

record finding =
  severity :: string
  title :: string
  tool :: string
  ftype :: "string option"
  line :: string
  fidentifier :: "string option"
  alertCount :: "js_number option"
  description :: jsval
  solution :: jsval
  reference :: jsval
  confidence :: jsval
  riskcode :: jsval
  fcount :: jsval
  instances :: jsval
  cweid :: jsval
  wascid :: jsval

definition text_finding :: "string \<Rightarrow> string \<Rightarrow> string \<Rightarrow> string option \<Rightarrow> string \<Rightarrow> finding" where
  "text_finding sev ttl tname ty lin =
     \<lparr>severity = sev, title = ttl, tool = tname, ftype = ty, line = lin,
      fidentifier = None, alertCount = None,
      description = JUndefined, solution = JUndefined, reference = JUndefined,
      confidence = JUndefined, riskcode = JUndefined, fcount = JUndefined,
      instances = JUndefined, cweid = JUndefined, wascid = JUndefined\<rparr>"

section \<open>The ZAP parser\<close>

definition determineZapSeverity :: "string \<Rightarrow> string" where
  "determineZapSeverity lin =
     (if str_includes lin ''FAIL'' \<or> str_includes lin ''HIGH'' \<or> str_includes lin ''Critical'' then ''HIGH''
      else if str_includes lin ''WARN'' \<or> str_includes lin ''MEDIUM'' \<or> str_includes lin ''Warning'' then ''MEDIUM''
      else if str_includes lin ''INFO'' \<or> str_includes lin ''LOW'' \<or> str_includes lin ''Information'' then ''LOW''
      else ''MEDIUM'')"

text \<open>The baseline block: \<^verbatim>\<open>WARN-NEW:\<close> and \<^verbatim>\<open>FAIL-NEW:\<close> lines.\<close>

definition zap_baseline :: "string \<Rightarrow> js_error + finding list" where
  "zap_baseline lin =
     (if str_includes lin ''WARN-NEW:'' \<or> str_includes lin ''FAIL-NEW:''
      then (let sev = (if str_includes lin ''WARN-NEW:'' then ''MEDIUM'' else ''HIGH'');
                titleMatch = zap_title_regex lin
            in bind (if titleMatch \<noteq> None then bind (deref titleMatch) (\<lambda>g. Inr (str_trim g))
                     else Inr ''Unknown vulnerability'')
                 (\<lambda>ttl. Inr [text_finding sev ttl ''zap'' (Some ''baseline_finding'') (str_trim lin)]))
      else Inr [])"

text \<open>The automation framework block: the number of alerts found.\<close>

definition zap_summary :: "string \<Rightarrow> js_error + finding list" where
  "zap_summary lin =
     (if str_includes lin ''FINISHED JOB'' \<or> str_includes lin ''alerts found''
      then (let alertsMatch = zap_alerts_regex lin
            in if alertsMatch \<noteq> None
               then bind (deref alertsMatch) (\<lambda>g.
                      let alertCount = parseInt g
                      in if is_positive alertCount
                         then Inr [(text_finding ''INFO''
                                      (''ZAP Automation Framework scan completed: '' @ number_text alertCount @ '' alerts found'')
                                      ''zap'' (Some ''scan_summary'') (str_trim lin))
                                   \<lparr>alertCount := Some alertCount\<rparr>]
                         else Inr [])
               else Inr [])
      else Inr [])"

text \<open>The keyword blocks, in the order of the source.\<close>

definition zap_keywords :: "string \<Rightarrow> finding list" where
  "zap_keywords lin =
     (if str_includes lin ''Cross Site Scripting'' \<or> str_includes lin ''XSS''
      then [text_finding (determineZapSeverity lin) ''Cross-Site Scripting (XSS) vulnerability detected''
              ''zap'' (Some ''xss_finding'') (str_trim lin)] else [])
     @ (if str_includes lin ''SQL Injection'' \<or> str_includes lin ''SQLi''
        then [text_finding (determineZapSeverity lin) ''SQL Injection vulnerability detected''
                ''zap'' (Some ''sql_injection'') (str_trim lin)] else [])
     @ (if str_includes lin ''Path Traversal'' \<or> str_includes lin ''Directory Browsing''
        then [text_finding (determineZapSeverity lin) ''Path Traversal vulnerability detected''
                ''zap'' (Some ''path_traversal'') (str_trim lin)] else [])
     @ (if str_includes lin ''CSRF'' \<or> str_includes lin ''Cross-Site Request Forgery''
        then [text_finding (determineZapSeverity lin) ''CSRF vulnerability detected''
                ''zap'' (Some ''csrf'') (str_trim lin)] else [])
     @ (if str_includes lin ''/rest/'' \<or> str_includes lin ''/api/''
        then (if str_includes lin ''500'' \<or> str_includes lin ''error'' \<or> str_includes lin ''exception''
              then [text_finding ''MEDIUM'' ''API endpoint error/exception detected''
                      ''zap'' (Some ''api_error'') (str_trim lin)] else [])
        else [])"

definition zap_line :: "string \<Rightarrow> js_error + finding list" where
  "zap_line lin =
     bind (zap_baseline lin) (\<lambda>f1. bind (zap_summary lin) (\<lambda>f2. Inr (f1 @ f2 @ zap_keywords lin)))"

text \<open>The loop over the lines: the findings of a line follow those of the lines before
  it, and an exception of any line leaves the loop.\<close>

fun for_lines :: "(string \<Rightarrow> js_error + finding list) \<Rightarrow> string list \<Rightarrow> js_error + finding list" where
  "for_lines f [] = Inr []"
| "for_lines f (l # ls) = bind (f l) (\<lambda>a. bind (for_lines f ls) (\<lambda>b. Inr (a @ b)))"

definition parseZapFindings :: "string \<Rightarrow> js_error + finding list" where
  "parseZapFindings rawOutput = for_lines zap_line (str_split rawOutput)"

section \<open>The Nikto parser\<close>

definition nikto_plus :: "string \<Rightarrow> js_error + finding list" where
  "nikto_plus lin =
     (if str_startsWith lin ''+''
      then (let vulnMatch = nikto_vuln_regex lin
            in if vulnMatch \<noteq> None
               then bind (deref vulnMatch) (\<lambda>(ident, descr).
                      let (sev, ty) =
                        (if str_includes descr ''admin'' \<or> str_includes descr ''password'' \<or> str_includes descr ''config''
                         then (''HIGH'', ''sensitive_exposure'')
                         else if str_includes descr ''directory'' \<or> str_includes descr ''file'' \<or> str_includes descr ''backup''
                         then (''MEDIUM'', ''information_disclosure'')
                         else if str_includes descr ''version'' \<or> str_includes descr ''server''
                         then (''LOW'', ''version_disclosure'')
                         else (''LOW'', ''info''))
                      in Inr [(text_finding sev (str_trim descr) ''nikto'' (Some ty) (str_trim lin))
                                \<lparr>fidentifier := Some (str_trim ident)\<rparr>])
               else Inr [])
      else Inr [])"

definition nikto_stats :: "string \<Rightarrow> js_error + finding list" where
  "nikto_stats lin =
     (if str_includes lin ''items checked'' \<or> str_includes lin ''requests made''
      then (let statsMatch = nikto_stats_regex lin
            in if statsMatch \<noteq> None
               then bind (deref statsMatch) (\<lambda>m0.
                      Inr [text_finding ''INFO'' (''Nikto scan statistics: '' @ m0) ''nikto''
                             (Some ''scan_stats'') (str_trim lin)])
               else Inr [])
      else Inr [])"

definition nikto_server_error :: "string \<Rightarrow> finding list" where
  "nikto_server_error lin =
     (if str_includes lin ''ERROR'' \<or> str_includes lin ''500'' \<or> str_includes lin ''403''
      then [text_finding ''MEDIUM'' ''Server error or access restriction detected'' ''nikto''
              (Some ''server_error'') (str_trim lin)]
      else [])"

definition nikto_line :: "string \<Rightarrow> js_error + finding list" where
  "nikto_line lin =
     bind (nikto_plus lin) (\<lambda>f1. bind (nikto_stats lin) (\<lambda>f2. Inr (f1 @ f2 @ nikto_server_error lin)))"

definition parseNiktoFindings :: "string \<Rightarrow> js_error + finding list" where
  "parseNiktoFindings rawOutput = for_lines nikto_line (str_split rawOutput)"

section \<open>The Wapiti parser\<close>

definition wapiti_vulns :: "string \<Rightarrow> finding list" where
  "wapiti_vulns lin =
     (if str_includes lin ''XSS'' \<or> str_includes lin ''Cross Site Scripting''
      then [text_finding ''HIGH'' ''Cross-Site Scripting vulnerability'' ''wapiti'' (Some ''xss'') (str_trim lin)]
      else [])
     @ (if str_includes lin ''SQL'' \<or> str_includes lin ''sql injection''
        then [text_finding ''HIGH'' ''SQL Injection vulnerability'' ''wapiti'' (Some ''sql_injection'') (str_trim lin)]
        else [])
     @ (if str_includes lin ''SSRF'' \<or> str_includes lin ''Server Side Request Forgery''
        then [text_finding ''HIGH'' ''Server-Side Request Forgery vulnerability'' ''wapiti'' (Some ''ssrf'') (str_trim lin)]
        else [])
     @ (if str_includes lin ''upload'' \<and> str_includes lin ''vulnerability''
        then [text_finding ''HIGH'' ''File Upload vulnerability'' ''wapiti'' (Some ''file_upload'') (str_trim lin)]
        else [])
     @ (if str_includes lin ''redirect'' \<or> str_includes lin ''open redirect''
        then [text_finding ''MEDIUM'' ''Open Redirect vulnerability'' ''wapiti'' (Some ''open_redirect'') (str_trim lin)]
        else [])"

definition wapiti_stats :: "string \<Rightarrow> js_error + finding list" where
  "wapiti_stats lin =
     (if str_includes lin ''pages found'' \<or> str_includes lin ''forms found''
      then (let statsMatch = wapiti_stats_regex lin
            in if statsMatch \<noteq> None
               then bind (deref statsMatch) (\<lambda>m0.
                      Inr [text_finding ''INFO'' (''Wapiti discovery: '' @ m0) ''wapiti''
                             (Some ''scan_stats'') (str_trim lin)])
               else Inr [])
      else Inr [])"

definition wapiti_issue :: "string \<Rightarrow> finding list" where
  "wapiti_issue lin =
     (if str_includes lin ''[!]'' \<or> str_includes lin ''WARNING'' \<or> str_includes lin ''ERROR''
      then (let sev0 = ''LOW'';
                sev1 = (if str_includes lin ''ERROR'' then ''MEDIUM'' else sev0);
                sev2 = (if str_includes lin ''CRITICAL'' then ''HIGH'' else sev1)
            in [text_finding sev2 ''Wapiti scan warning or error'' ''wapiti'' (Some ''scan_issue'') (str_trim lin)])
      else [])"

definition wapiti_line :: "string \<Rightarrow> js_error + finding list" where
  "wapiti_line lin = bind (wapiti_stats lin) (\<lambda>f2. Inr (wapiti_vulns lin @ f2 @ wapiti_issue lin))"

definition parseWapitiFindings :: "string \<Rightarrow> js_error + finding list" where
  "parseWapitiFindings rawOutput = for_lines wapiti_line (str_split rawOutput)"

section \<open>Dispatch on the tool\<close>

definition placeholder_finding :: "string \<Rightarrow> finding" where
  "placeholder_finding tname =
     text_finding ''INFO'' ''Parser not implemented for this tool'' tname None ''Raw output available in artifacts''"

definition parseFindingsFromStdout :: "string \<Rightarrow> string \<Rightarrow> js_error + finding list" where
  "parseFindingsFromStdout rawOutput tname =
     (if tname = ''zap'' then bind (parseZapFindings rawOutput) (\<lambda>fs. Inr ([] @ fs))
      else if tname = ''nikto'' then bind (parseNiktoFindings rawOutput) (\<lambda>fs. Inr ([] @ fs))
      else if tname = ''wapiti'' then bind (parseWapitiFindings rawOutput) (\<lambda>fs. Inr ([] @ fs))
      else Inr ([] @ [placeholder_finding tname]))"

text \<open>The conditions under which a parser looks at a line at all.\<close>

definition zap_markers :: "string list" where
  "zap_markers = [''WARN-NEW:'', ''FAIL-NEW:'', ''FINISHED JOB'', ''alerts found'',
     ''Cross Site Scripting'', ''XSS'', ''SQL Injection'', ''SQLi'', ''Path Traversal'',
     ''Directory Browsing'', ''CSRF'', ''Cross-Site Request Forgery'', ''/rest/'', ''/api/'']"

definition nikto_markers :: "string list" where
  "nikto_markers = [''items checked'', ''requests made'', ''ERROR'', ''500'', ''403'']"

definition wapiti_markers :: "string list" where
  "wapiti_markers = [''XSS'', ''Cross Site Scripting'', ''SQL'', ''sql injection'', ''SSRF'',
     ''Server Side Request Forgery'', ''redirect'', ''open redirect'', ''pages found'',
     ''forms found'', ''[!]'', ''WARNING'', ''ERROR'']"

definition has_marker :: "string \<Rightarrow> string \<Rightarrow> bool" where
  "has_marker tname lin \<longleftrightarrow>
     (if tname = ''zap'' then list_ex (str_includes lin) zap_markers
      else if tname = ''nikto'' then str_startsWith lin ''+'' \<or> list_ex (str_includes lin) nikto_markers
      else if tname = ''wapiti''
      then list_ex (str_includes lin) wapiti_markers \<or> (str_includes lin ''upload'' \<and> str_includes lin ''vulnerability'')
      else False)"

section \<open>The result of a scan\<close>

text \<open>The record that \<open>runScan\<close> resolves with. Its field \<^verbatim>\<open>runId\<close> holds the
  identifier handed to the script, and \<^verbatim>\<open>error\<close> is set only in the failure branch.\<close>

record scan_result =
  scriptRunId :: string
  exitCode :: "int option"
  stdout :: string
  stderr :: string
  rerror :: "string option"
  duration :: int
  success :: bool

section \<open>Report synthesis\<close>

text \<open>
  \<open>generateMarkdownContent\<close> reads the clock when the metadata carry no timestamp:
  \<^verbatim>\<open>metadata.timestamp || new Date().toISOString()\<close>. The text of the clock is the
  argument \<open>now_iso\<close> of the model. The duration is a floating point number; its text
  \<^verbatim>\<open>Math.round((d || 0) * 100) / 100\<close> is the argument \<open>fmt\<close>.
\<close>

record 'n metadata =
  md_tool :: "string option"
  target_url :: "string option"
  duration_seconds :: "'n option"
  timestamp :: "string option"

definition nl :: string where
  "nl = [CHR 0x0A]"

text \<open>\<^verbatim>\<open>a || b\<close> on a string that may be absent: the empty string is falsy.\<close>

definition or_else :: "string option \<Rightarrow> string \<Rightarrow> string" where
  "or_else a b = (case a of None \<Rightarrow> b | Some s \<Rightarrow> if s = [] then b else s)"

definition truthy :: "jsval \<Rightarrow> bool" where
  "truthy v = (case v of JUndefined \<Rightarrow> False | JNull \<Rightarrow> False | JNum n \<Rightarrow> n \<noteq> 0 | JStr s \<Rightarrow> s \<noteq> [])"

definition js_str :: "jsval \<Rightarrow> string" where
  "js_str v = (case v of JUndefined \<Rightarrow> ''undefined'' | JNull \<Rightarrow> ''null'' | JNum n \<Rightarrow> show_int n | JStr s \<Rightarrow> s)"

definition md_header :: "('n option \<Rightarrow> string) \<Rightarrow> string \<Rightarrow> string \<Rightarrow> 'n metadata \<Rightarrow> scan_result \<Rightarrow> nat \<Rightarrow> string" where
  "md_header fmt now_iso runId metadata result n =
     (let ts = or_else (timestamp metadata) now_iso in
      ''# Security Scan Report - '' @ runId @ nl @ nl
      @ ''## Scan Information'' @ nl
      @ ''- **Tool**: '' @ or_else (md_tool metadata) ''Unknown'' @ nl
      @ ''- **Target URL**: '' @ or_else (target_url metadata) ''Unknown'' @ nl
      @ ''- **Duration**: '' @ fmt (duration_seconds metadata) @ ''s'' @ nl
      @ ''- **Exit Code**: ''
      @ (case exitCode result of None \<Rightarrow> ''Unknown'' | Some c \<Rightarrow> if c = 0 then ''Unknown'' else show_int c) @ nl
      @ ''- **Timestamp**: '' @ ts @ nl @ nl
      @ ''## Findings Summary'' @ nl
      @ ''**Total Findings**: '' @ show_nat n @ nl @ nl)"

definition md_row :: "finding \<Rightarrow> string" where
  "md_row f = ''| '' @ severity f @ '' | '' @ title f @ '' | '' @ tool f @ '' |'' @ nl"

text \<open>\<^verbatim>\<open>v.slice(0, 200)\<close> with the ellipsis; a truthy value that is no string has no
  \<^verbatim>\<open>slice\<close>.\<close>

definition md_clip :: "jsval \<Rightarrow> js_error + string" where
  "md_clip v = (case v of JStr s \<Rightarrow> Inr (take 200 s @ (if length s > 200 then ''...'' else []))
                | _ \<Rightarrow> Inl (TypeError ''slice is not a function''))"

definition md_json_alert :: "finding \<Rightarrow> js_error + string" where
  "md_json_alert f =
     (let m1 = (if truthy (confidence f) then ''- **Confidence**: '' @ js_str (confidence f) @ nl else []);
          m2 = (if truthy (fcount f) then ''- **Instances**: '' @ js_str (fcount f) @ nl else []);
          m3 = (if truthy (cweid f) then ''- **CWE ID**: '' @ js_str (cweid f) @ nl else []);
          m4 = (if truthy (wascid f) then ''- **WASC ID**: '' @ js_str (wascid f) @ nl else [])
      in bind (if truthy (description f)
               then bind (md_clip (description f)) (\<lambda>d. Inr (''- **Description**: '' @ d @ nl))
               else Inr [])
           (\<lambda>m5. bind (if truthy (solution f)
                        then bind (md_clip (solution f)) (\<lambda>d. Inr (''- **Solution**: '' @ d @ nl))
                        else Inr [])
                    (\<lambda>m6. Inr (m1 @ m2 @ m3 @ m4 @ m5 @ m6))))"

definition md_extra :: "finding \<Rightarrow> js_error + string" where
  "md_extra f =
     (if ftype f = Some ''json_alert'' then md_json_alert f
      else if ftype f = Some ''scan_summary'' \<and> alertCount f \<noteq> None \<and> alertCount f \<noteq> Some (Finite 0)
      then Inr (''- **Alert Count**: '' @ number_text (the (alertCount f)) @ nl)
      else if fidentifier f \<noteq> None \<and> fidentifier f \<noteq> Some []
      then Inr (''- **Identifier**: '' @ the (fidentifier f) @ nl)
      else Inr [])"

definition md_detail :: "nat \<Rightarrow> finding \<Rightarrow> js_error + string" where
  "md_detail i f =
     bind (md_extra f) (\<lambda>extra. Inr (
       ''### '' @ show_nat (i + 1) @ ''. '' @ title f @ nl
       @ ''- **Severity**: '' @ severity f @ nl
       @ ''- **Tool**: '' @ tool f @ nl
       @ extra
       @ ''- **Type**: '' @ or_else (ftype f) ''unknown'' @ nl
       @ ''- **Raw Output**: `'' @ line f @ ''`'' @ nl @ nl))"

text \<open>The indexed loop over the findings, from index \<open>i\<close>.\<close>

fun md_details :: "nat \<Rightarrow> finding list \<Rightarrow> js_error + string" where
  "md_details i [] = Inr []"
| "md_details i (f # fs) = bind (md_detail i f) (\<lambda>a. bind (md_details (Suc i) fs) (\<lambda>b. Inr (a @ b)))"

text \<open>\<^verbatim>\<open>file.split('.').pop()\<close>: what follows the last dot, or the whole name.\<close>

definition file_ext :: "string \<Rightarrow> string" where
  "file_ext file = rev (takeWhile (\<lambda>c. c \<noteq> CHR ''.'') (rev file))"

definition md_report_file :: "'n metadata \<Rightarrow> string \<Rightarrow> string" where
  "md_report_file metadata file =
     (let ext = file_ext file;
          ty = (if ext = ''json'' then ''JSON Report'' else if ext = ''html'' then ''HTML Report'' else ''Report'')
      in ''- `'' @ file @ ''` - '' @ or_else (md_tool metadata) ''Tool'' @ '' '' @ ty @ nl)"

definition md_artifacts :: "string \<Rightarrow> 'n metadata \<Rightarrow> scan_result \<Rightarrow> string list \<Rightarrow> string \<Rightarrow> string" where
  "md_artifacts runId metadata result reportFiles batchId =
     ''## File Artifacts'' @ nl @ nl
     @ ''### Raw Output'' @ nl
     @ ''- `artifacts/'' @ batchId @ ''/'' @ runId @ ''_raw.txt` - Complete stdout from ''
        @ or_else (md_tool metadata) ''tool'' @ nl
     @ (if length reportFiles > 0
        then nl @ ''### Tool Reports'' @ nl @ concat (map (md_report_file metadata) reportFiles)
        else [])
     @ nl @ ''### Markdown Report'' @ nl
     @ ''- `artifacts/'' @ batchId @ ''/'' @ runId @ ''_report.md` - This report'' @ nl
     @ (if rerror result \<noteq> None \<and> rerror result \<noteq> Some []
        then nl @ ''## Error Information'' @ nl @ ''```'' @ nl @ the (rerror result) @ nl @ ''```'' @ nl
        else [])"

definition generateMarkdownContent ::
  "('n option \<Rightarrow> string) \<Rightarrow> string \<Rightarrow> string \<Rightarrow> 'n metadata \<Rightarrow> scan_result \<Rightarrow> finding list
     \<Rightarrow> string list \<Rightarrow> string \<Rightarrow> js_error + string" where
  "generateMarkdownContent fmt now_iso runId metadata result findings reportFiles batchId =
     bind (if length findings > 0
           then bind (md_details 0 findings) (\<lambda>ds. Inr (
                  ''| Severity | Title | Tool |'' @ nl
                  @ ''|----------|-------|------|'' @ nl
                  @ concat (map md_row findings)
                  @ nl @ ''## Detailed Findings'' @ nl @ nl
                  @ ds))
           else Inr [])
       (\<lambda>body. Inr (md_header fmt now_iso runId metadata result (length findings)
                     @ body
                     @ md_artifacts runId metadata result reportFiles batchId))"

section \<open>Batches, runs and observers\<close>

datatype run_state = RunPending | RunRunning | RunCompleted | RunFailed

datatype batch_state = BatchCreated | BatchRunning | BatchCompleted

text \<open>The configuration is the body of the request; \<open>repetitions\<close> is any integer.\<close>

record batch_config =
  cfg_tool :: string
  targetUrl :: string
  repetitions :: int

record run_status =
  runIndex :: nat
  runId :: string
  status :: run_state
  startedAt :: "int option"
  completedAt :: "int option"
  rduration :: "int option"
  result :: "scan_result option"
  logs :: "string list"
  error :: "string option"

text \<open>An element of \<^verbatim>\<open>batch.runs\<close>: it has a result or an error.\<close>

record run_entry =
  e_runIndex :: nat
  e_runId :: string
  e_result :: "scan_result option"
  e_error :: "string option"
  e_completedAt :: int

record progress_counters =
  total_p :: int
  completed :: int
  running :: int
  failed :: int

text \<open>The messages that are serialised and sent to the observers, one constructor for
  each \<^verbatim>\<open>type\<close>; \<^verbatim>\<open>run_status_update\<close> has three shapes.\<close>

datatype message =
    MBatchStarted string int
  | MRunStatusRunning string nat string "int option"
  | MRunStatusCompleted string nat string "int option" int scan_result
  | MRunStatusFailed string nat string "int option" string
  | MRunStarted string nat string
  | MRunCompleted string nat string scan_result
  | MRunFailed string nat string string
  | MStdout string string int
  | MStderr string string int
  | MMarkdownGenerated string string string
  | MMarkdownError string string string
  | MBatchCompleted string
  | MBatchStatus string batch_state progress_counters "run_status list"

text \<open>Observers are sockets, named by numbers; \<open>clients\<close> is the \<^verbatim>\<open>Set\<close> of the
  observers of a batch: their names in the order of insertion, each once.\<close>

record batch =
  batch_id :: string
  config :: batch_config
  bstatus :: batch_state
  createdAt :: int
  bstartedAt :: "int option"
  bcompletedAt :: "int option"
  runs :: "run_entry list"
  runStatuses :: "run_status list"
  progress :: progress_counters
  clients :: "nat list"

text \<open>A socket: its \<^verbatim>\<open>readyState\<close>, what was handed to its \<^verbatim>\<open>send\<close>, and the
  batches whose \<^verbatim>\<open>close\<close> handler it carries.\<close>

record socket =
  readyState :: nat
  sent :: "message list"
  closeHandlers :: "string list"

text \<open>
  JavaScript runs one task at a time and a task keeps the processor until it awaits. A
  call of \<open>scheduleRun\<close> is therefore in one of four places: asleep in the admission loop;
  inside \<open>runScan\<close>, awaiting the executor (with the clock at the start and the output
  accumulated so far); resumed from \<open>runScan\<close> with its result or its exception, before
  the rest of \<open>scheduleRun\<close> has run; or settled. A task is a run index and its place.
\<close>

datatype pc = Waiting | Scanning int string string | Returned "js_error + scan_result" | Finished

type_synonym task = "nat \<times> pc"

text \<open>How the promise of the executor settles: fulfilled with an exit code, or rejected
  with an error that has a message and, when the process did exit, an exit code.\<close>

datatype outcome = Exited int | Rejected "int option" string

text \<open>
  The state of the process: the registry and the cap of the \<open>BatchManager\<close> (its map
  \<^verbatim>\<open>activeScans\<close> is never read nor written after the constructor and is left out),
  the pending calls of \<open>scheduleRun\<close> of every batch, the sockets, and the file system: the
  contents of the files and, for every path, the exceptions that the file system is
  about to raise there: \<open>faulty w p\<close> lists the messages of the exceptions that the coming
  calls of \<^verbatim>\<open>mkdirSync\<close> and \<^verbatim>\<open>writeFileSync\<close> on \<open>p\<close> throw, one call
  after the other; once the list is empty the calls succeed. The messages are those of
  the file system and are not interpreted.
\<close>

record world =
  batches :: "string \<rightharpoonup> batch"
  maxConcurrent :: int
  tasks :: "string \<Rightarrow> task list"
  sockets :: "nat \<Rightarrow> socket"
  files :: "string \<rightharpoonup> string"
  faulty :: "string \<Rightarrow> string list"

text \<open>What the model takes from outside: the listing of a directory, the findings of the
  structured reports of a run (\<open>parseJsonReports\<close> catches every exception and returns a
  list), the ISO text of an instant and the text of a rounded duration.\<close>

record js_env =
  readdir :: "string \<Rightarrow> string list"
  parseJsonReports :: "string \<Rightarrow> string \<Rightarrow> string \<Rightarrow> finding list"
  iso :: "int \<Rightarrow> string"
  fmt :: "rat option \<Rightarrow> string"

definition new_world :: "(nat \<Rightarrow> socket) \<Rightarrow> (string \<rightharpoonup> string) \<Rightarrow> (string \<Rightarrow> string list) \<Rightarrow> world" where
  "new_world socks fs flt =
     \<lparr>batches = Map.empty, maxConcurrent = 3, tasks = (\<lambda>_. []), sockets = socks, files = fs, faulty = flt\<rparr>"

definition err_message :: "js_error \<Rightarrow> string" where
  "err_message e = (case e of TypeError m \<Rightarrow> m | ExecaError c m \<Rightarrow> m | FsError m \<Rightarrow> m | NotFound m \<Rightarrow> m)"

definition err_exitCode :: "js_error \<Rightarrow> int option" where
  "err_exitCode e = (case e of ExecaError c m \<Rightarrow> c | _ \<Rightarrow> None)"

text \<open>Paths are relative to the backend directory and are not normalised.\<close>

definition ARTIFACTS_DIR :: string where
  "ARTIFACTS_DIR = ''artifacts''"

definition path_join :: "string \<Rightarrow> string \<Rightarrow> string" where
  "path_join a b = a @ ''/'' @ b"

definition run_id :: "string \<Rightarrow> nat \<Rightarrow> string" where
  "run_id batchId i = batchId @ ''_run_'' @ show_nat i"

definition raw_path :: "string \<Rightarrow> string \<Rightarrow> string" where
  "raw_path batchId rid = path_join (path_join ARTIFACTS_DIR batchId) (rid @ ''_raw.txt'')"

text \<open>A call of the file system on \<open>path\<close> that may throw: it takes the next exception
  that is due on the path, if there is one.\<close>

definition fs_attempt :: "world \<Rightarrow> string \<Rightarrow> world \<times> (js_error + unit)" where
  "fs_attempt w path =
     (case faulty w path of
        [] \<Rightarrow> (w, Inr ())
      | m # ms \<Rightarrow> (w\<lparr>faulty := (faulty w)(path := ms)\<rparr>, Inl (FsError m)))"

definition writeFileSync :: "world \<Rightarrow> string \<Rightarrow> string \<Rightarrow> world \<times> (js_error + unit)" where
  "writeFileSync w path data =
     (case fs_attempt w path of
        (w1, Inl e) \<Rightarrow> (w1, Inl e)
      | (w1, Inr _) \<Rightarrow> (w1\<lparr>files := (files w1)(path \<mapsto> data)\<rparr>, Inr ()))"

text \<open>In-place mutation of the batch object that the registry holds.\<close>

definition upd_batch :: "world \<Rightarrow> string \<Rightarrow> (batch \<Rightarrow> batch) \<Rightarrow> world" where
  "upd_batch w batchId f = w\<lparr>batches := (batches w)(batchId := map_option f (batches w batchId))\<rparr>"

definition set_pc :: "world \<Rightarrow> string \<Rightarrow> nat \<Rightarrow> pc \<Rightarrow> world" where
  "set_pc w batchId k p =
     w\<lparr>tasks := (tasks w)(batchId := (tasks w batchId)[k := (fst (tasks w batchId ! k), p)])\<rparr>"

section \<open>The event bus\<close>

text \<open>The callback of \<^verbatim>\<open>forEach\<close>: the message is handed to a socket that is open.\<close>

definition send_if_open :: "message \<Rightarrow> nat \<Rightarrow> (nat \<Rightarrow> socket) \<Rightarrow> (nat \<Rightarrow> socket)" where
  "send_if_open msg ws socks =
     (if readyState (socks ws) = 1 then socks(ws := (socks ws)\<lparr>sent := sent (socks ws) @ [msg]\<rparr>)
      else socks)"

definition broadcastToBatch :: "world \<Rightarrow> string \<Rightarrow> message \<Rightarrow> world" where
  "broadcastToBatch w batchId msg =
     (case batches w batchId of
        None \<Rightarrow> w
      | Some b \<Rightarrow> w\<lparr>sockets := fold (send_if_open msg) (clients b) (sockets w)\<rparr>)"

text \<open>\<^verbatim>\<open>Set.prototype.add\<close> and \<^verbatim>\<open>Set.prototype.delete\<close>.\<close>

definition set_add :: "nat \<Rightarrow> nat list \<Rightarrow> nat list" where
  "set_add x xs = (if x \<in> set xs then xs else xs @ [x])"

definition set_delete :: "nat \<Rightarrow> nat list \<Rightarrow> nat list" where
  "set_delete x xs = removeAll x xs"

definition subscribeClient :: "world \<Rightarrow> string \<Rightarrow> nat \<Rightarrow> world" where
  "subscribeClient w batchId ws =
     (case batches w batchId of
        None \<Rightarrow> w
      | Some b \<Rightarrow>
          (let w1 = upd_batch w batchId (\<lambda>b. b\<lparr>clients := set_add ws (clients b)\<rparr>);
               so = sockets w1 ws
           in w1\<lparr>sockets := (sockets w1)(ws := so
                   \<lparr>sent := sent so @ [MBatchStatus batchId (bstatus b) (progress b) (runStatuses b)],
                    closeHandlers := closeHandlers so @ [batchId]\<rparr>)\<rparr>))"

text \<open>The socket closes: its state becomes CLOSED and its handlers run, each deleting
  the socket from the observers of its batch.\<close>

definition on_close :: "world \<Rightarrow> nat \<Rightarrow> world" where
  "on_close w ws =
     (let w1 = w\<lparr>sockets := (sockets w)(ws := (sockets w ws)\<lparr>readyState := 3\<rparr>)\<rparr>
      in fold (\<lambda>batchId w. upd_batch w batchId (\<lambda>b. b\<lparr>clients := set_delete ws (clients b)\<rparr>))
           (closeHandlers (sockets w ws)) w1)"

section \<open>The registry\<close>

text \<open>The clock and the random token are arguments. The batch is registered before the
  directory is provisioned, so it stays registered when \<^verbatim>\<open>mkdirSync\<close> throws.\<close>

definition new_batch_id :: "batch_config \<Rightarrow> int \<Rightarrow> string \<Rightarrow> string" where
  "new_batch_id cfg now rnd = ''batch_'' @ show_int now @ ''_'' @ rnd @ ''_'' @ cfg_tool cfg"

definition new_run_status :: "string \<Rightarrow> nat \<Rightarrow> run_status" where
  "new_run_status batchId i =
     \<lparr>runIndex = i, runId = run_id batchId i, status = RunPending, startedAt = None,
      completedAt = None, rduration = None, result = None, logs = [], error = None\<rparr>"

definition ensureBatchDirectory :: "world \<Rightarrow> string \<Rightarrow> world \<times> (js_error + unit)" where
  "ensureBatchDirectory w batchId = fs_attempt w (path_join ARTIFACTS_DIR batchId)"

definition createBatch :: "world \<Rightarrow> batch_config \<Rightarrow> int \<Rightarrow> string \<Rightarrow> world \<times> (js_error + batch)" where
  "createBatch w cfg now rnd =
     (let batchId = new_batch_id cfg now rnd;
          runStatuses0 = map (new_run_status batchId) [0 ..< nat (repetitions cfg)];
          b = \<lparr>batch_id = batchId, config = cfg, bstatus = BatchCreated, createdAt = now,
               bstartedAt = None, bcompletedAt = None, runs = [], runStatuses = runStatuses0,
               progress = \<lparr>total_p = repetitions cfg, completed = 0, running = 0, failed = 0\<rparr>,
               clients = []\<rparr>;
          w1 = w\<lparr>batches := (batches w)(batchId \<mapsto> b)\<rparr>
      in case ensureBatchDirectory w1 batchId of
           (w2, r) \<Rightarrow> (w2, bind r (\<lambda>_. Inr b)))"

section \<open>The scheduler\<close>

text \<open>
  One pass of the admission loop of \<open>scheduleRun\<close> for the task at position \<open>k\<close>, and,
  when the counter is below the cap, everything up to the \<^verbatim>\<open>await\<close> inside
  \<open>runScan\<close>: the increment, the transition to \<open>running\<close>, the two messages and the
  start of the executor. No other task runs between the test of the counter and the
  increment. Writing a field of \<^verbatim>\<open>runStatuses[runIndex]\<close> throws when the index is out
  of range: then the handler counts a failure, throws again on the same write, and the
  \<^verbatim>\<open>finally\<close> block decrements the counter before the call settles.
\<close>

definition inc_running :: "batch \<Rightarrow> batch" where
  "inc_running b = b\<lparr>progress := (progress b)\<lparr>running := running (progress b) + 1\<rparr>\<rparr>"

definition dec_running :: "batch \<Rightarrow> batch" where
  "dec_running b = b\<lparr>progress := (progress b)\<lparr>running := running (progress b) - 1\<rparr>\<rparr>"

definition inc_completed :: "batch \<Rightarrow> batch" where
  "inc_completed b = b\<lparr>progress := (progress b)\<lparr>completed := completed (progress b) + 1\<rparr>\<rparr>"

definition inc_failed :: "batch \<Rightarrow> batch" where
  "inc_failed b = b\<lparr>progress := (progress b)\<lparr>failed := failed (progress b) + 1\<rparr>\<rparr>"

definition upd_run :: "nat \<Rightarrow> (run_status \<Rightarrow> run_status) \<Rightarrow> batch \<Rightarrow> batch" where
  "upd_run i f b = b\<lparr>runStatuses := (runStatuses b)[i := f (runStatuses b ! i)]\<rparr>"

definition admission :: "world \<Rightarrow> string \<Rightarrow> nat \<Rightarrow> int \<Rightarrow> world" where
  "admission w batchId k t =
     (case batches w batchId of
        None \<Rightarrow> set_pc w batchId k Finished
      | Some b \<Rightarrow>
          if running (progress b) \<ge> maxConcurrent w then w
          else (let i = fst (tasks w batchId ! k);
                    w1 = upd_batch w batchId inc_running
                in if i < length (runStatuses b)
                   then (let w2 = upd_batch w1 batchId
                                    (upd_run i (\<lambda>r. r\<lparr>status := RunRunning, startedAt := Some t\<rparr>));
                             w3 = broadcastToBatch w2 batchId (MRunStatusRunning batchId i (run_id batchId i) (Some t));
                             w4 = broadcastToBatch w3 batchId (MRunStarted batchId i (run_id batchId i))
                         in set_pc w4 batchId k (Scanning t [] []))
                   else (let w2 = upd_batch w1 batchId inc_failed;
                             w3 = upd_batch w2 batchId dec_running
                         in set_pc w3 batchId k Finished)))"

text \<open>The call \<open>scheduleRun(batchId, runIndex)\<close>: a new task, run up to its first
  \<^verbatim>\<open>await\<close>.\<close>

definition scheduleRun :: "world \<Rightarrow> string \<Rightarrow> nat \<Rightarrow> int \<Rightarrow> world" where
  "scheduleRun w batchId i t =
     admission (w\<lparr>tasks := (tasks w)(batchId := tasks w batchId @ [(i, Waiting)])\<rparr>)
       batchId (length (tasks w batchId)) t"

text \<open>\<open>startBatch\<close> up to its \<^verbatim>\<open>await\<close> of all the scheduling tasks.\<close>

definition startBatch :: "world \<Rightarrow> string \<Rightarrow> int \<Rightarrow> js_error + world" where
  "startBatch w batchId t =
     (case batches w batchId of
        None \<Rightarrow> Inl (NotFound (''Batch '' @ batchId @ '' not found''))
      | Some b \<Rightarrow>
          (let w1 = upd_batch w batchId (\<lambda>b. b\<lparr>bstatus := BatchRunning, bstartedAt := Some t\<rparr>);
               w2 = broadcastToBatch w1 batchId (MBatchStarted batchId (repetitions (config b)))
           in Inr (fold (\<lambda>i w. scheduleRun w batchId i t) [0 ..< nat (repetitions (config b))] w2)))"

section \<open>The process supervisor\<close>

text \<open>A chunk arrives on the standard output (\<open>is_out\<close>) or on the standard error of
  the executor of task \<open>k\<close>.\<close>

definition on_data :: "world \<Rightarrow> string \<Rightarrow> nat \<Rightarrow> bool \<Rightarrow> string \<Rightarrow> int \<Rightarrow> world" where
  "on_data w batchId k is_out chunk t =
     (case tasks w batchId ! k of
        (i, Scanning st out err) \<Rightarrow>
          (if is_out
           then broadcastToBatch (set_pc w batchId k (Scanning st (out @ chunk) err)) batchId
                  (MStdout (run_id batchId i) (str_trim chunk) t)
           else broadcastToBatch (set_pc w batchId k (Scanning st out (err @ chunk))) batchId
                  (MStderr (run_id batchId i) (str_trim chunk) t))
      | _ \<Rightarrow> w)"

text \<open>
  \<open>runScan\<close> after its \<^verbatim>\<open>await\<close>: \<open>st\<close> is the clock at the call, \<open>out\<close> and \<open>err\<close>
  the accumulated output, \<open>oc\<close> how the executor settled, \<open>t\<close> the clock now. The handler
  catches the rejection of the executor and also an exception of the write in the
  \<^verbatim>\<open>try\<close> block; an exception of the write in the handler itself leaves \<open>runScan\<close>.
\<close>

definition runScan_catch :: "world \<Rightarrow> string \<Rightarrow> string \<Rightarrow> int \<Rightarrow> string \<Rightarrow> string \<Rightarrow> js_error \<Rightarrow> int
    \<Rightarrow> world \<times> (js_error + scan_result)" where
  "runScan_catch w batchId rid st out err e t =
     (case writeFileSync w (raw_path batchId rid) out of
        (w', Inl e') \<Rightarrow> (w', Inl e')
      | (w', Inr _) \<Rightarrow>
          (w', Inr \<lparr>scriptRunId = rid @ ''_'' @ show_int st, exitCode = err_exitCode e, stdout = out,
                    stderr = err, rerror = Some (err_message e), duration = t - st, success = False\<rparr>))"

definition runScan_settle :: "world \<Rightarrow> string \<Rightarrow> string \<Rightarrow> int \<Rightarrow> string \<Rightarrow> string \<Rightarrow> outcome \<Rightarrow> int
    \<Rightarrow> world \<times> (js_error + scan_result)" where
  "runScan_settle w batchId rid st out err oc t =
     (case oc of
        Exited c \<Rightarrow>
          (case writeFileSync w (raw_path batchId rid) out of
             (w', Inl e) \<Rightarrow> runScan_catch w' batchId rid st out err e t
           | (w', Inr _) \<Rightarrow>
               (w', Inr \<lparr>scriptRunId = rid @ ''_'' @ show_int st, exitCode = Some c, stdout = out,
                         stderr = err, rerror = None, duration = t - st, success = True\<rparr>))
      | Rejected c m \<Rightarrow> runScan_catch w batchId rid st out err (ExecaError c m) t)"

definition on_exit :: "world \<Rightarrow> string \<Rightarrow> nat \<Rightarrow> outcome \<Rightarrow> int \<Rightarrow> world" where
  "on_exit w batchId k oc t =
     (case tasks w batchId ! k of
        (i, Scanning st out err) \<Rightarrow>
          (case runScan_settle w batchId (run_id batchId i) st out err oc t of
             (w1, r) \<Rightarrow> set_pc w1 batchId k (Returned r))
      | _ \<Rightarrow> w)"

text \<open>A whole call of \<open>runScan\<close> on its own: the chunks of the two streams in their order
  of arrival (standard output marked \<open>True\<close>), then the settlement.\<close>

definition runScan :: "world \<Rightarrow> string \<Rightarrow> string \<Rightarrow> int \<Rightarrow> (bool \<times> string) list \<Rightarrow> outcome \<Rightarrow> int
    \<Rightarrow> world \<times> (js_error + scan_result)" where
  "runScan w batchId rid st chunks oc t =
     runScan_settle w batchId rid st
       (concat (map snd (filter fst chunks)))
       (concat (map snd (filter (\<lambda>c. \<not> fst c) chunks))) oc t"

section \<open>The rest of \<open>scheduleRun\<close>\<close>

definition run_catch :: "world \<Rightarrow> string \<Rightarrow> nat \<Rightarrow> js_error \<Rightarrow> int \<Rightarrow> world" where
  "run_catch w batchId i e t =
     (let w1 = upd_batch w batchId inc_failed
      in case batches w1 batchId of
           None \<Rightarrow> w1
         | Some b \<Rightarrow>
             if i < length (runStatuses b)
             then (let w2 = upd_batch w1 batchId
                              (upd_run i (\<lambda>r. r\<lparr>status := RunFailed, completedAt := Some t,
                                                error := Some (err_message e)\<rparr>));
                       w3 = upd_batch w2 batchId (\<lambda>b. b\<lparr>runs := runs b @
                              [\<lparr>e_runIndex = i, e_runId = run_id batchId i, e_result = None,
                                e_error = Some (err_message e), e_completedAt = t\<rparr>]\<rparr>);
                       w4 = broadcastToBatch w3 batchId
                              (MRunStatusFailed batchId i (run_id batchId i) (Some t) (err_message e))
                   in broadcastToBatch w4 batchId (MRunFailed batchId i (run_id batchId i) (err_message e)))
             else w1)"

definition run_try :: "world \<Rightarrow> string \<Rightarrow> nat \<Rightarrow> scan_result \<Rightarrow> int \<Rightarrow> world" where
  "run_try w batchId i res t =
     (let w1 = upd_batch w batchId (\<lambda>b. b\<lparr>runs := runs b @
                 [\<lparr>e_runIndex = i, e_runId = run_id batchId i, e_result = Some res,
                   e_error = None, e_completedAt = t\<rparr>]\<rparr>)
      in case batches w1 batchId of
           None \<Rightarrow> w1
         | Some b \<Rightarrow>
             if i < length (runStatuses b)
             then (let w2 = upd_batch w1 batchId
                              (upd_run i (\<lambda>r. r\<lparr>status := RunCompleted, completedAt := Some t,
                                                rduration := Some (duration res), result := Some res\<rparr>));
                       w3 = upd_batch w2 batchId inc_completed;
                       w4 = broadcastToBatch w3 batchId
                              (MRunStatusCompleted batchId i (run_id batchId i) (Some t) (duration res) res)
                   in broadcastToBatch w4 batchId (MRunCompleted batchId i (run_id batchId i) res))
             else run_catch w1 batchId i (TypeError ''Cannot set properties of undefined'') t)"

text \<open>The task at position \<open>k\<close> resumes from \<open>runScan\<close>: the rest of the \<^verbatim>\<open>try\<close>
  block or the handler, then the \<^verbatim>\<open>finally\<close> block.\<close>

definition resume :: "world \<Rightarrow> string \<Rightarrow> nat \<Rightarrow> int \<Rightarrow> world" where
  "resume w batchId k t =
     (case tasks w batchId ! k of
        (i, Returned r) \<Rightarrow>
          (let w1 = (case r of Inr res \<Rightarrow> run_try w batchId i res t
                             | Inl e \<Rightarrow> run_catch w batchId i e t);
               w2 = upd_batch w1 batchId dec_running
           in set_pc w2 batchId k Finished)
      | _ \<Rightarrow> w)"

section \<open>Completion of a batch\<close>

definition report_path :: "string \<Rightarrow> string \<Rightarrow> string" where
  "report_path batchId rid = path_join (path_join ARTIFACTS_DIR batchId) (rid @ ''_report.md'')"

definition generateMarkdownReport :: "js_env \<Rightarrow> world \<Rightarrow> string \<Rightarrow> scan_result \<Rightarrow> string \<Rightarrow> int
    \<Rightarrow> world \<times> (js_error + unit)" where
  "generateMarkdownReport env w rid res batchId t =
     (case batches w batchId of
        None \<Rightarrow> (w, Inl (TypeError ''Cannot read properties of undefined''))
      | Some b \<Rightarrow>
          (let batchDir = path_join ARTIFACTS_DIR batchId;
               rawOutput = (case files w (raw_path batchId rid) of None \<Rightarrow> [] | Some c \<Rightarrow> c);
               reportFiles = map (\<lambda>file. ''artifacts/'' @ batchId @ ''/'' @ file)
                               (filter (\<lambda>file. str_includes file rid
                                          \<and> (str_endsWith file ''.json'' \<or> str_endsWith file ''.html''))
                                  (readdir env batchDir))
           in case bind (parseFindingsFromStdout rawOutput (cfg_tool (config b))) (\<lambda>parsed.
                let parsedFindings = parsed @ parseJsonReports env batchDir rid (cfg_tool (config b));
                    metadata = \<lparr>md_tool = Some (cfg_tool (config b)), target_url = Some (targetUrl (config b)),
                                duration_seconds = Some (of_int (duration res) / 1000),
                                timestamp = Some (iso env t)\<rparr>
                in generateMarkdownContent (fmt env) (iso env t) rid metadata res parsedFindings reportFiles batchId)
              of Inl e \<Rightarrow> (w, Inl e)
               | Inr markdown \<Rightarrow> writeFileSync w (report_path batchId rid) markdown))"

fun generateMarkdownReports :: "js_env \<Rightarrow> string \<Rightarrow> int \<Rightarrow> run_entry list \<Rightarrow> world \<Rightarrow> world" where
  "generateMarkdownReports env batchId t [] w = w"
| "generateMarkdownReports env batchId t (r # rs) w =
     generateMarkdownReports env batchId t rs
       (case e_result r of
          None \<Rightarrow> w
        | Some res \<Rightarrow>
            (case generateMarkdownReport env w (e_runId r) res batchId t of
               (w', Inr _) \<Rightarrow> broadcastToBatch w' batchId
                          (MMarkdownGenerated batchId (e_runId r)
                             (''artifacts/'' @ batchId @ ''/'' @ e_runId r @ ''_report.md''))
             | (w', Inl e) \<Rightarrow> broadcastToBatch w' batchId (MMarkdownError batchId (e_runId r) (err_message e))))"

definition finalizeBatch :: "js_env \<Rightarrow> world \<Rightarrow> string \<Rightarrow> int \<Rightarrow> world" where
  "finalizeBatch env w batchId t =
     (let w1 = upd_batch w batchId (\<lambda>b. b\<lparr>bstatus := BatchCompleted, bcompletedAt := Some t\<rparr>);
          w2 = (case batches w1 batchId of
                  None \<Rightarrow> w1
                | Some b \<Rightarrow> generateMarkdownReports env batchId t (runs b) w1)
      in broadcastToBatch w2 batchId (MBatchCompleted batchId))"

section \<open>Executions\<close>

text \<open>
  The events of the event loop, each carrying the reading of the clock of its task: a
  call of \<open>createBatch\<close> (with the random token), a call of \<open>startBatch\<close>, the timer of
  a sleeping admission loop, a chunk of output, the settlement of an executor, the
  resumption of \<open>scheduleRun\<close> after \<open>runScan\<close>, the resumption of \<open>startBatch\<close> once all
  its scheduling tasks have settled, a subscription, the closing of a socket, and a
  change of what the file system is about to refuse on a path (it is outside the
  process and may change between any two tasks).
  An event that cannot happen in the state gives \<open>None\<close>. Identifiers of batches do not
  collide, and a batch is started once: starting it again is an error of the caller.
\<close>

datatype event =
    Create batch_config int string
  | Start string int
  | Wake string nat int
  | Chunk string nat bool string int
  | Exit string nat outcome int
  | Resume string nat int
  | Finalize string int
  | Subscribe string nat
  | Close nat
  | Fault string "string list"

definition is_scanning :: "pc \<Rightarrow> bool" where
  "is_scanning p = (case p of Scanning st out err \<Rightarrow> True | _ \<Rightarrow> False)"

definition is_returned :: "pc \<Rightarrow> bool" where
  "is_returned p = (case p of Returned r \<Rightarrow> True | _ \<Rightarrow> False)"

definition pc_at :: "world \<Rightarrow> string \<Rightarrow> nat \<Rightarrow> pc option" where
  "pc_at w batchId k = (if k < length (tasks w batchId) then Some (snd (tasks w batchId ! k)) else None)"

fun step :: "js_env \<Rightarrow> world \<Rightarrow> event \<Rightarrow> world option" where
  "step env w (Create cfg t rnd) =
     (if batches w (new_batch_id cfg t rnd) = None then Some (fst (createBatch w cfg t rnd)) else None)"
| "step env w (Start batchId t) =
     (case batches w batchId of
        None \<Rightarrow> Some w
      | Some b \<Rightarrow>
          if bstatus b = BatchCreated
          then (case startBatch w batchId t of Inl e \<Rightarrow> Some w | Inr w' \<Rightarrow> Some w')
          else None)"
| "step env w (Wake batchId k t) =
     (if pc_at w batchId k = Some Waiting then Some (admission w batchId k t) else None)"
| "step env w (Chunk batchId k is_out chunk t) =
     (case pc_at w batchId k of
        Some p \<Rightarrow> if is_scanning p then Some (on_data w batchId k is_out chunk t) else None
      | None \<Rightarrow> None)"
| "step env w (Exit batchId k oc t) =
     (case pc_at w batchId k of
        Some p \<Rightarrow> if is_scanning p then Some (on_exit w batchId k oc t) else None
      | None \<Rightarrow> None)"
| "step env w (Resume batchId k t) =
     (case pc_at w batchId k of
        Some p \<Rightarrow> if is_returned p then Some (resume w batchId k t) else None
      | None \<Rightarrow> None)"
| "step env w (Finalize batchId t) =
     (case batches w batchId of
        None \<Rightarrow> None
      | Some b \<Rightarrow>
          if bstatus b = BatchRunning \<and> list_all (\<lambda>tk. snd tk = Finished) (tasks w batchId)
          then Some (finalizeBatch env w batchId t) else None)"
| "step env w (Subscribe batchId ws) = Some (subscribeClient w batchId ws)"
| "step env w (Close ws) = Some (on_close w ws)"
| "step env w (Fault path ms) = Some (w\<lparr>faulty := (faulty w)(path := ms)\<rparr>)"

text \<open>An execution is a list of events, each possible in the state that the events
  before it lead to.\<close>

fun run_from :: "js_env \<Rightarrow> world option \<Rightarrow> event list \<Rightarrow> world option" where
  "run_from env None es = None"
| "run_from env (Some w) [] = Some w"
| "run_from env (Some w) (e # es) = run_from env (step env w e) es"

definition run_events :: "js_env \<Rightarrow> world \<Rightarrow> event list \<Rightarrow> world option" where
  "run_events env w es = run_from env (Some w) es"

section \<open>Counting tasks\<close>

text \<open>A task is active from its admission until the \<^verbatim>\<open>finally\<close> block of
  \<open>scheduleRun\<close> has run, and settled afterwards.\<close>

definition active :: "task \<Rightarrow> bool" where
  "active tk \<longleftrightarrow> is_scanning (snd tk) \<or> is_returned (snd tk)"

definition settled :: "task \<Rightarrow> bool" where
  "settled tk \<longleftrightarrow> snd tk = Finished"

text \<open>The counters of a batch against its tasks.\<close>

definition core_inv :: "int \<Rightarrow> batch \<Rightarrow> task list \<Rightarrow> bool" where
  "core_inv cap b ts \<longleftrightarrow>
     running (progress b) = int (length (filter active ts))
   \<and> running (progress b) \<le> cap
   \<and> completed (progress b) + failed (progress b) = int (length (filter settled ts))
   \<and> nat (repetitions (config b)) = length (runStatuses b)
   \<and> list_all (\<lambda>tk. fst tk < length (runStatuses b)) ts"

definition batch_inv :: "int \<Rightarrow> batch \<Rightarrow> task list \<Rightarrow> bool" where
  "batch_inv cap b ts \<longleftrightarrow>
     core_inv cap b ts
   \<and> (if bstatus b = BatchCreated then ts = [] else length ts = length (runStatuses b))
   \<and> (if bstatus b = BatchCompleted then list_all settled ts else True)"

definition world_inv :: "world \<Rightarrow> bool" where
  "world_inv w \<longleftrightarrow>
     maxConcurrent w = 3
   \<and> (\<forall>batchId. (batches w batchId = None \<longrightarrow> tasks w batchId = [])
                \<and> (\<forall>b. batches w batchId = Some b \<longrightarrow> batch_inv 3 b (tasks w batchId)))"

text \<open>The number of runs of a batch that the counter reports as running, and its sum
  over a list of batches.\<close>

definition running_of :: "world \<Rightarrow> string \<Rightarrow> int" where
  "running_of w batchId = (case batches w batchId of None \<Rightarrow> 0 | Some b \<Rightarrow> running (progress b))"

definition total_running :: "world \<Rightarrow> string list \<Rightarrow> int" where
  "total_running w batchIds = sum_list (map (running_of w) batchIds)"

text \<open>Views of a batch in a state, for statements about concrete executions.\<close>

definition world_after :: "js_env \<Rightarrow> world \<Rightarrow> event list \<Rightarrow> world" where
  "world_after env w evs = (case run_events env w evs of None \<Rightarrow> w | Some w' \<Rightarrow> w')"

definition state_of :: "world \<Rightarrow> string \<Rightarrow> batch_state option" where
  "state_of w batchId = map_option bstatus (batches w batchId)"

definition counters_of :: "world \<Rightarrow> string \<Rightarrow> progress_counters option" where
  "counters_of w batchId = map_option progress (batches w batchId)"

definition run_states :: "world \<Rightarrow> string \<Rightarrow> run_state list" where
  "run_states w batchId = (case batches w batchId of None \<Rightarrow> [] | Some b \<Rightarrow> map status (runStatuses b))"

definition run_errors :: "world \<Rightarrow> string \<Rightarrow> string option list" where
  "run_errors w batchId = (case batches w batchId of None \<Rightarrow> [] | Some b \<Rightarrow> map error (runStatuses b))"

definition run_results :: "world \<Rightarrow> string \<Rightarrow> scan_result option list" where
  "run_results w batchId = (case batches w batchId of None \<Rightarrow> [] | Some b \<Rightarrow> map result (runStatuses b))"

definition active_count :: "world \<Rightarrow> string \<Rightarrow> nat" where
  "active_count w batchId = length (filter active (tasks w batchId))"

section \<open>Concrete inputs\<close>

definition ex_socket :: socket where
  "ex_socket = \<lparr>readyState = 1, sent = [], closeHandlers = []\<rparr>"

definition ex_sockets :: "nat \<Rightarrow> socket" where
  "ex_sockets s = ex_socket"

definition ex_fmt :: "rat option \<Rightarrow> string" where
  "ex_fmt d = ''0''"

definition ex_iso :: "int \<Rightarrow> string" where
  "ex_iso t = ''2024-01-01T00:00:00.000Z''"

definition ex_readdir :: "string \<Rightarrow> string list" where
  "ex_readdir d = []"

definition ex_json :: "string \<Rightarrow> string \<Rightarrow> string \<Rightarrow> finding list" where
  "ex_json d r t = []"

definition ex_env :: js_env where
  "ex_env = \<lparr>readdir = ex_readdir, parseJsonReports = ex_json, iso = ex_iso, fmt = ex_fmt\<rparr>"

definition ex_faults :: "string \<Rightarrow> string list" where
  "ex_faults p = []"

definition ex_world :: world where
  "ex_world = new_world ex_sockets Map.empty ex_faults"

text \<open>A file system that refuses the next two writes of the raw artifact of the first
  run of the batch \<open>batch_0_x_zap\<close>.\<close>

definition ex_refusing_world :: world where
  "ex_refusing_world = new_world ex_sockets Map.empty
     (ex_faults(''artifacts/batch_0_x_zap/batch_0_x_zap_run_0_raw.txt'' := [''EISDIR: illegal operation on a directory'', ''EISDIR: illegal operation on a directory'']))"

definition ex_config :: "int \<Rightarrow> batch_config" where
  "ex_config n = \<lparr>cfg_tool = ''zap'', targetUrl = ''http://juice-shop:3000'', repetitions = n\<rparr>"

section \<open>Properties of the parsers\<close>

lemma zap_line_total: "\<exists>fs. zap_line lin = Inr fs"
  by (auto simp: zap_line_def zap_baseline_def zap_summary_def Let_def bind_def deref_def
      split: option.splits)

lemma nikto_line_total: "\<exists>fs. nikto_line lin = Inr fs"
  by (auto simp: nikto_line_def nikto_plus_def nikto_stats_def Let_def bind_def deref_def
      split: option.splits prod.splits)

lemma wapiti_line_total: "\<exists>fs. wapiti_line lin = Inr fs"
  by (auto simp: wapiti_line_def wapiti_stats_def Let_def bind_def deref_def split: option.splits)

lemma for_lines_total:
  assumes "\<And>l. \<exists>fs. f l = Inr fs"
  shows "\<exists>fs. for_lines f ls = Inr fs"
proof (induction ls)
  case Nil
  show ?case by simp
next
  case (Cons l ls)
  from assms obtain a where "f l = Inr a" by blast
  moreover from Cons obtain b where "for_lines f ls = Inr b" by blast
  ultimately show ?case by (simp add: bind_def)
qed

lemma for_lines_empty:
  "(\<And>l. l \<in> set ls \<Longrightarrow> f l = Inr []) \<Longrightarrow> for_lines f ls = Inr []"
  by (induction ls) (auto simp: bind_def)

lemma zap_unmarked: "\<not> has_marker ''zap'' lin \<Longrightarrow> zap_line lin = Inr []"
  by (simp add: has_marker_def zap_markers_def zap_line_def zap_baseline_def zap_summary_def
      zap_keywords_def bind_def)

lemma nikto_unmarked: "\<not> has_marker ''nikto'' lin \<Longrightarrow> nikto_line lin = Inr []"
  by (simp add: has_marker_def nikto_markers_def nikto_line_def nikto_plus_def nikto_stats_def
      nikto_server_error_def bind_def)

lemma wapiti_unmarked: "\<not> has_marker ''wapiti'' lin \<Longrightarrow> wapiti_line lin = Inr []"
  by (simp add: has_marker_def wapiti_markers_def wapiti_line_def wapiti_stats_def
      wapiti_vulns_def wapiti_issue_def bind_def)

lemma parse_total: "\<exists>fs. parseFindingsFromStdout rawOutput tname = Inr fs"
proof -
  obtain a where a: "parseZapFindings rawOutput = Inr a"
    unfolding parseZapFindings_def using for_lines_total [of zap_line, OF zap_line_total] by blast
  obtain b where b: "parseNiktoFindings rawOutput = Inr b"
    unfolding parseNiktoFindings_def using for_lines_total [of nikto_line, OF nikto_line_total] by blast
  obtain c where c: "parseWapitiFindings rawOutput = Inr c"
    unfolding parseWapitiFindings_def using for_lines_total [of wapiti_line, OF wapiti_line_total] by blast
  show ?thesis
    by (simp add: parseFindingsFromStdout_def a b c bind_def)
qed

lemma parse_unmarked:
  assumes "\<forall>l \<in> set (str_split rawOutput). \<not> has_marker tname l"
    and "tname = ''zap'' \<or> tname = ''nikto'' \<or> tname = ''wapiti''"
  shows "parseFindingsFromStdout rawOutput tname = Inr []"
proof -
  have "tname = ''zap'' \<Longrightarrow> parseZapFindings rawOutput = Inr []"
    unfolding parseZapFindings_def using assms(1) by (intro for_lines_empty zap_unmarked) simp
  moreover have "tname = ''nikto'' \<Longrightarrow> parseNiktoFindings rawOutput = Inr []"
    unfolding parseNiktoFindings_def using assms(1) by (intro for_lines_empty nikto_unmarked) simp
  moreover have "tname = ''wapiti'' \<Longrightarrow> parseWapitiFindings rawOutput = Inr []"
    unfolding parseWapitiFindings_def using assms(1) by (intro for_lines_empty wapiti_unmarked) simp
  ultimately show ?thesis
    using assms(2) by (auto simp: parseFindingsFromStdout_def bind_def)
qed

text \<open>
  C7. The ZAP parser, given the single line
  \<^verbatim>\<open>WARN-NEW: Missing Anti-clickjacking Header [10020]\<close> (with or without a line feed
  after it), yields exactly one finding; its severity is \<open>MEDIUM\<close> and its title is
  \<open>Missing Anti-clickjacking Header\<close>. The dispatch on the tool \<open>zap\<close> returns the same.
\<close>

theorem zap_warn_new_line:
  "\<exists>f. parseZapFindings ''WARN-NEW: Missing Anti-clickjacking Header [10020]'' = Inr [f]
     \<and> parseZapFindings (''WARN-NEW: Missing Anti-clickjacking Header [10020]'' @ nl) = Inr [f]
     \<and> parseFindingsFromStdout ''WARN-NEW: Missing Anti-clickjacking Header [10020]'' ''zap'' = Inr [f]
     \<and> severity f = ''MEDIUM'' \<and> title f = ''Missing Anti-clickjacking Header''"
proof -
  let ?f = "text_finding ''MEDIUM'' ''Missing Anti-clickjacking Header'' ''zap''
              (Some ''baseline_finding'') ''WARN-NEW: Missing Anti-clickjacking Header [10020]''"
  have 1: "parseZapFindings ''WARN-NEW: Missing Anti-clickjacking Header [10020]'' = Inr [?f]"
    by code_simp
  have 2: "parseZapFindings (''WARN-NEW: Missing Anti-clickjacking Header [10020]'' @ nl) = Inr [?f]"
    by code_simp
  have 3: "parseFindingsFromStdout ''WARN-NEW: Missing Anti-clickjacking Header [10020]'' ''zap'' = Inr [?f]"
    by (simp add: parseFindingsFromStdout_def 1 bind_def)
  have 4: "severity ?f = ''MEDIUM'' \<and> title ?f = ''Missing Anti-clickjacking Header''"
    by (simp add: text_finding_def)
  from 1 2 3 4 show ?thesis by blast
qed

text \<open>
  C8. For every raw output and every tool identifier \<open>parseFindingsFromStdout\<close> returns a
  list of findings and never an exception. For the three known tools the list is empty
  when no line of the output meets any condition under which the parser of the tool
  looks at a line (in particular for the empty output); for any other tool it is the
  single placeholder finding.
\<close>

theorem parseFindingsFromStdout_never_throws:
  "(\<exists>fs. parseFindingsFromStdout rawOutput tname = Inr fs)
   \<and> ((\<forall>l \<in> set (str_split rawOutput). \<not> has_marker tname l)
        \<and> (tname = ''zap'' \<or> tname = ''nikto'' \<or> tname = ''wapiti'')
      \<longrightarrow> parseFindingsFromStdout rawOutput tname = Inr [])
   \<and> (tname = ''zap'' \<or> tname = ''nikto'' \<or> tname = ''wapiti''
      \<longrightarrow> parseFindingsFromStdout [] tname = Inr [])
   \<and> (tname \<noteq> ''zap'' \<and> tname \<noteq> ''nikto'' \<and> tname \<noteq> ''wapiti''
      \<longrightarrow> parseFindingsFromStdout rawOutput tname = Inr [placeholder_finding tname])"
proof (intro conjI impI)
  show "\<exists>fs. parseFindingsFromStdout rawOutput tname = Inr fs"
    by (rule parse_total)
next
  assume "(\<forall>l \<in> set (str_split rawOutput). \<not> has_marker tname l)
        \<and> (tname = ''zap'' \<or> tname = ''nikto'' \<or> tname = ''wapiti'')"
  then show "parseFindingsFromStdout rawOutput tname = Inr []"
    using parse_unmarked by blast
next
  assume k: "tname = ''zap'' \<or> tname = ''nikto'' \<or> tname = ''wapiti''"
  have "\<forall>l \<in> set (str_split []). \<not> has_marker tname l"
    using k by (auto simp: has_marker_def zap_markers_def nikto_markers_def wapiti_markers_def
        str_startsWith_def)
  then show "parseFindingsFromStdout [] tname = Inr []"
    using k parse_unmarked by blast
next
  assume "tname \<noteq> ''zap'' \<and> tname \<noteq> ''nikto'' \<and> tname \<noteq> ''wapiti''"
  then show "parseFindingsFromStdout rawOutput tname = Inr [placeholder_finding tname]"
    by (simp add: parseFindingsFromStdout_def)
qed

theorem parseFindingsFromStdout_never_throws_witness:
  "parseFindingsFromStdout ''- Nikto v2.5.0\<newline>garbage \<newline>\<newline>'' ''nikto'' = Inr []
   \<and> parseFindingsFromStdout [] ''zap'' = Inr []
   \<and> parseFindingsFromStdout ''+ \<newline>:::'' ''sqlmap'' = Inr [placeholder_finding ''sqlmap'']"
proof -
  have h: "\<forall>l \<in> set (str_split ''- Nikto v2.5.0\<newline>garbage \<newline>\<newline>''). \<not> has_marker ''nikto'' l"
    by (simp add: has_marker_def nikto_markers_def str_startsWith_def)
  show ?thesis
    using h parseFindingsFromStdout_never_throws [of "''- Nikto v2.5.0\<newline>garbage \<newline>\<newline>''" "''nikto''"]
      parseFindingsFromStdout_never_throws [of "[]" "''zap''"]
      parseFindingsFromStdout_never_throws [of "''+ \<newline>:::''" "''sqlmap''"]
    by simp
qed

section \<open>Properties of the report synthesis\<close>

lemma md_header_clock:
  "timestamp metadata = Some ts \<Longrightarrow> ts \<noteq> [] \<Longrightarrow>
   md_header fm c1 rid metadata res n = md_header fm c2 rid metadata res n"
  by (simp add: md_header_def or_else_def)

text \<open>
  C6 as stated fails: with metadata that carry no timestamp, two calls with the same
  arguments at two different instants give two different documents.
\<close>

theorem generateMarkdownContent_clock_counterexample:
  "generateMarkdownContent ex_fmt ''2024-01-01T00:00:00.000Z'' ''r''
     \<lparr>md_tool = None, target_url = None, duration_seconds = (None :: rat option), timestamp = None\<rparr>
     \<lparr>scriptRunId = ''r'', exitCode = None, stdout = [], stderr = [], rerror = None,
      duration = 0, success = True\<rparr> [] [] ''b''
   \<noteq> generateMarkdownContent ex_fmt ''2024-01-02T00:00:00.000Z'' ''r''
     \<lparr>md_tool = None, target_url = None, duration_seconds = (None :: rat option), timestamp = None\<rparr>
     \<lparr>scriptRunId = ''r'', exitCode = None, stdout = [], stderr = [], rerror = None,
      duration = 0, success = True\<rparr> [] [] ''b''"
  by (simp add: generateMarkdownContent_def md_header_def or_else_def bind_def nl_def)

text \<open>
  C6, amended. When the metadata carry a non-empty timestamp (as they do at the one call
  in the batch manager), the document depends on the arguments only: the reading of the
  clock does not reach it.
\<close>

theorem generateMarkdownContent_deterministic:
  assumes "timestamp metadata = Some ts" and "ts \<noteq> []"
  shows "generateMarkdownContent fm c1 rid metadata res findings reportFiles batchId
       = generateMarkdownContent fm c2 rid metadata res findings reportFiles batchId"
proof -
  have h: "\<And>n. md_header fm c1 rid metadata res n = md_header fm c2 rid metadata res n"
    using assms by (rule md_header_clock)
  show ?thesis
    unfolding generateMarkdownContent_def h ..
qed

theorem generateMarkdownContent_deterministic_witness:
  "generateMarkdownContent (\<lambda>d. ''1.2'') ''2024-01-01T00:00:00.000Z'' ''r''
     \<lparr>md_tool = Some ''zap'', target_url = None, duration_seconds = Some (6 / 5 :: rat),
      timestamp = Some ''2023-12-31T23:59:59.000Z''\<rparr>
     \<lparr>scriptRunId = ''r'', exitCode = Some 2, stdout = [], stderr = [], rerror = None,
      duration = 1200, success = True\<rparr>
     [text_finding ''MEDIUM'' ''T'' ''zap'' (Some ''baseline_finding'') ''L''] [] ''b''
   = generateMarkdownContent (\<lambda>d. ''1.2'') ''2024-01-02T00:00:00.000Z'' ''r''
     \<lparr>md_tool = Some ''zap'', target_url = None, duration_seconds = Some (6 / 5 :: rat),
      timestamp = Some ''2023-12-31T23:59:59.000Z''\<rparr>
     \<lparr>scriptRunId = ''r'', exitCode = Some 2, stdout = [], stderr = [], rerror = None,
      duration = 1200, success = True\<rparr>
     [text_finding ''MEDIUM'' ''T'' ''zap'' (Some ''baseline_finding'') ''L''] [] ''b''"
  by (rule generateMarkdownContent_deterministic [where ts = "''2023-12-31T23:59:59.000Z''"]) simp_all

section \<open>Properties of the scheduler: frames and invariants\<close>

lemma run_events_simps [simp]:
  "run_events env w [] = Some w"
  "run_events env w (e # es) = (case step env w e of None \<Rightarrow> None | Some w' \<Rightarrow> run_events env w' es)"
  by (simp_all add: run_events_def split: option.splits)


lemma upd_batch_simps [simp]:
  "batches (upd_batch w b f) = (batches w)(b := map_option f (batches w b))"
  "tasks (upd_batch w b f) = tasks w"
  "maxConcurrent (upd_batch w b f) = maxConcurrent w"
  "sockets (upd_batch w b f) = sockets w"
  "files (upd_batch w b f) = files w"
  "faulty (upd_batch w b f) = faulty w"
  by (simp_all add: upd_batch_def)

lemma set_pc_simps [simp]:
  "batches (set_pc w b k p) = batches w"
  "tasks (set_pc w b k p) = (tasks w)(b := (tasks w b)[k := (fst (tasks w b ! k), p)])"
  "maxConcurrent (set_pc w b k p) = maxConcurrent w"
  "sockets (set_pc w b k p) = sockets w"
  "files (set_pc w b k p) = files w"
  "faulty (set_pc w b k p) = faulty w"
  by (simp_all add: set_pc_def)

lemma broadcast_simps [simp]:
  "batches (broadcastToBatch w b m) = batches w"
  "tasks (broadcastToBatch w b m) = tasks w"
  "maxConcurrent (broadcastToBatch w b m) = maxConcurrent w"
  "files (broadcastToBatch w b m) = files w"
  "faulty (broadcastToBatch w b m) = faulty w"
  by (simp_all add: broadcastToBatch_def split: option.splits)

lemma fs_attempt_frame:
  "fs_attempt w p = (w', r) \<Longrightarrow>
     batches w' = batches w \<and> tasks w' = tasks w \<and> maxConcurrent w' = maxConcurrent w
     \<and> sockets w' = sockets w \<and> files w' = files w"
  by (auto simp: fs_attempt_def split: list.splits)

lemma writeFileSync_frame:
  "writeFileSync w p d = (w', r) \<Longrightarrow>
     batches w' = batches w \<and> tasks w' = tasks w \<and> maxConcurrent w' = maxConcurrent w
     \<and> sockets w' = sockets w"
  by (auto simp: writeFileSync_def fs_attempt_def split: list.splits)

lemma count_update:
  "k < length xs \<Longrightarrow>
   int (length (filter P (xs[k := y]))) = int (length (filter P xs)) - of_bool (P (xs ! k)) + of_bool (P y)"
proof (induction xs arbitrary: k)
  case Nil then show ?case by simp
next
  case (Cons x xs) then show ?case by (cases k) auto
qed

lemma admission_frame:
  "maxConcurrent (admission w b k t) = maxConcurrent w"
  "b' \<noteq> b \<Longrightarrow> batches (admission w b k t) b' = batches w b'"
  "b' \<noteq> b \<Longrightarrow> tasks (admission w b k t) b' = tasks w b'"
  by (simp_all add: admission_def Let_def split: option.splits)

lemma admission_batch:
  assumes "batches w b = Some x" "fst (tasks w b ! k) < length (runStatuses x)"
  shows "batches (admission w b k t) b =
           Some (if running (progress x) \<ge> maxConcurrent w then x
                 else upd_run (fst (tasks w b ! k)) (\<lambda>r. r\<lparr>status := RunRunning, startedAt := Some t\<rparr>) (inc_running x))"
    and "tasks (admission w b k t) b =
           (if running (progress x) \<ge> maxConcurrent w then tasks w b
            else (tasks w b)[k := (fst (tasks w b ! k), Scanning t [] [])])"
  using assms by (simp_all add: admission_def Let_def)


lemma active_simps [simp]:
  "active (i, Waiting) = False" "active (i, Scanning st out err) = True"
  "active (i, Returned r) = True" "active (i, Finished) = False"
  by (simp_all add: active_def is_scanning_def is_returned_def)

lemma settled_simps [simp]:
  "settled (i, Waiting) = False" "settled (i, Scanning st out err) = False"
  "settled (i, Returned r) = False" "settled (i, Finished) = True"
  by (simp_all add: settled_def)

lemma batch_upd_simps [simp]:
  "progress (inc_running x) = (progress x)\<lparr>running := running (progress x) + 1\<rparr>"
  "progress (dec_running x) = (progress x)\<lparr>running := running (progress x) - 1\<rparr>"
  "progress (inc_completed x) = (progress x)\<lparr>completed := completed (progress x) + 1\<rparr>"
  "progress (inc_failed x) = (progress x)\<lparr>failed := failed (progress x) + 1\<rparr>"
  "progress (upd_run i f x) = progress x"
  "runStatuses (inc_running x) = runStatuses x"
  "runStatuses (dec_running x) = runStatuses x"
  "runStatuses (inc_completed x) = runStatuses x"
  "runStatuses (inc_failed x) = runStatuses x"
  "runStatuses (upd_run i f x) = (runStatuses x)[i := f (runStatuses x ! i)]"
  "config (inc_running x) = config x" "config (dec_running x) = config x"
  "config (inc_completed x) = config x" "config (inc_failed x) = config x"
  "config (upd_run i f x) = config x"
  "bstatus (inc_running x) = bstatus x" "bstatus (dec_running x) = bstatus x"
  "bstatus (inc_completed x) = bstatus x" "bstatus (inc_failed x) = bstatus x"
  "bstatus (upd_run i f x) = bstatus x"
  "clients (inc_running x) = clients x" "clients (dec_running x) = clients x"
  "clients (inc_completed x) = clients x" "clients (inc_failed x) = clients x"
  "clients (upd_run i f x) = clients x"
  "runs (inc_running x) = runs x" "runs (dec_running x) = runs x"
  "runs (inc_completed x) = runs x" "runs (inc_failed x) = runs x"
  "runs (upd_run i f x) = runs x"
  by (simp_all add: inc_running_def dec_running_def inc_completed_def inc_failed_def upd_run_def)

lemma core_inv_index:
  "core_inv cap x ts \<Longrightarrow> k < length ts \<Longrightarrow> fst (ts ! k) < length (runStatuses x)"
  by (simp add: core_inv_def list_all_length)

lemma list_all_update:
  "list_all P xs \<Longrightarrow> P y \<Longrightarrow> list_all P (xs[k := y])"
  by (auto simp: list_all_iff dest: set_update_subset_insert [THEN subsetD])

lemma admission_core:
  assumes x: "batches w b = Some x" and inv: "core_inv (maxConcurrent w) x (tasks w b)"
    and k: "k < length (tasks w b)" and pc: "snd (tasks w b ! k) = Waiting"
  shows "\<exists>x'. batches (admission w b k t) b = Some x'
           \<and> core_inv (maxConcurrent w) x' (tasks (admission w b k t) b)
           \<and> bstatus x' = bstatus x \<and> config x' = config x
           \<and> length (tasks (admission w b k t) b) = length (tasks w b)"
proof -
  obtain i where tk: "tasks w b ! k = (i, Waiting)"
    using pc by (cases "tasks w b ! k") simp
  have i: "fst (tasks w b ! k) < length (runStatuses x)"
    using inv k by (rule core_inv_index)
  note r = admission_batch [OF x i, of t]
  show ?thesis
  proof (cases "running (progress x) \<ge> maxConcurrent w")
    case True
    then show ?thesis using r inv by simp
  next
    case False
    have "core_inv (maxConcurrent w)
            (upd_run i (\<lambda>r. r\<lparr>status := RunRunning, startedAt := Some t\<rparr>) (inc_running x))
            ((tasks w b)[k := (i, Scanning t [] [])])"
      using inv k tk i False
      by (simp add: core_inv_def count_update list_all_update)
    then show ?thesis using r False tk by simp
  qed
qed


lemma core_inv_runStatuses:
  "core_inv cap x ts \<Longrightarrow> core_inv cap x' ts' \<Longrightarrow> config x' = config x
     \<Longrightarrow> length (runStatuses x') = length (runStatuses x)"
  by (simp add: core_inv_def)

lemma scheduleRun_frame:
  "maxConcurrent (scheduleRun w b i t) = maxConcurrent w"
  "b' \<noteq> b \<Longrightarrow> batches (scheduleRun w b i t) b' = batches w b'"
  "b' \<noteq> b \<Longrightarrow> tasks (scheduleRun w b i t) b' = tasks w b'"
  by (simp_all add: scheduleRun_def admission_frame)

lemma scheduleRun_core:
  assumes x: "batches w b = Some x" and inv: "core_inv (maxConcurrent w) x (tasks w b)"
    and i: "i < length (runStatuses x)"
  shows "\<exists>x'. batches (scheduleRun w b i t) b = Some x'
           \<and> core_inv (maxConcurrent w) x' (tasks (scheduleRun w b i t) b)
           \<and> bstatus x' = bstatus x \<and> config x' = config x
           \<and> length (runStatuses x') = length (runStatuses x)
           \<and> length (tasks (scheduleRun w b i t) b) = Suc (length (tasks w b))"
proof -
  let ?wa = "w\<lparr>tasks := (tasks w)(b := tasks w b @ [(i, Waiting)])\<rparr>"
  have inv': "core_inv (maxConcurrent ?wa) x (tasks ?wa b)"
    using inv i by (simp add: core_inv_def)
  have "\<exists>x'. batches (admission ?wa b (length (tasks w b)) t) b = Some x'
           \<and> core_inv (maxConcurrent ?wa) x' (tasks (admission ?wa b (length (tasks w b)) t) b)
           \<and> bstatus x' = bstatus x \<and> config x' = config x
           \<and> length (tasks (admission ?wa b (length (tasks w b)) t) b) = length (tasks ?wa b)"
    by (rule admission_core [OF _ inv']) (simp_all add: x)
  then obtain x' where x': "batches (admission ?wa b (length (tasks w b)) t) b = Some x'"
      "core_inv (maxConcurrent ?wa) x' (tasks (admission ?wa b (length (tasks w b)) t) b)"
      "bstatus x' = bstatus x" "config x' = config x"
      "length (tasks (admission ?wa b (length (tasks w b)) t) b) = length (tasks ?wa b)"
    by blast
  have "length (runStatuses x') = length (runStatuses x)"
    using inv' x'(2) x'(4) by (rule core_inv_runStatuses)
  then show ?thesis
    using x' by (simp add: scheduleRun_def)
qed

lemma loop_frame:
  "maxConcurrent (fold (\<lambda>i w. scheduleRun w b i t) is w) = maxConcurrent w"
  "b' \<noteq> b \<Longrightarrow> batches (fold (\<lambda>i w. scheduleRun w b i t) is w) b' = batches w b'"
  "b' \<noteq> b \<Longrightarrow> tasks (fold (\<lambda>i w. scheduleRun w b i t) is w) b' = tasks w b'"
  by (induction "is" arbitrary: w) (simp_all add: scheduleRun_frame)

lemma loop_core:
  assumes x: "batches w b = Some x" and inv: "core_inv (maxConcurrent w) x (tasks w b)"
    and n: "n \<le> length (runStatuses x)"
  shows "\<exists>x'. batches (fold (\<lambda>i w. scheduleRun w b i t) [0 ..< n] w) b = Some x'
           \<and> core_inv (maxConcurrent w) x' (tasks (fold (\<lambda>i w. scheduleRun w b i t) [0 ..< n] w) b)
           \<and> bstatus x' = bstatus x \<and> config x' = config x
           \<and> length (runStatuses x') = length (runStatuses x)
           \<and> length (tasks (fold (\<lambda>i w. scheduleRun w b i t) [0 ..< n] w) b) = length (tasks w b) + n"
  using n
proof (induction n)
  case 0
  then show ?case using x inv by simp
next
  case (Suc n)
  let ?w = "fold (\<lambda>i w. scheduleRun w b i t) [0 ..< n] w"
  from Suc obtain x1 where x1: "batches ?w b = Some x1" "core_inv (maxConcurrent w) x1 (tasks ?w b)"
      "bstatus x1 = bstatus x" "config x1 = config x" "length (runStatuses x1) = length (runStatuses x)"
      "length (tasks ?w b) = length (tasks w b) + n"
    by auto
  have m: "maxConcurrent ?w = maxConcurrent w" by (rule loop_frame)
  have "\<exists>x'. batches (scheduleRun ?w b n t) b = Some x'
           \<and> core_inv (maxConcurrent ?w) x' (tasks (scheduleRun ?w b n t) b)
           \<and> bstatus x' = bstatus x1 \<and> config x' = config x1
           \<and> length (runStatuses x') = length (runStatuses x1)
           \<and> length (tasks (scheduleRun ?w b n t) b) = Suc (length (tasks ?w b))"
    using x1 Suc.prems by (intro scheduleRun_core) (simp_all add: m)
  then show ?case
    using x1 m by auto
qed

lemma batch_inv_created:
  "batch_inv cap x ts \<Longrightarrow> bstatus x = BatchCreated \<Longrightarrow> ts = []"
  by (simp add: batch_inv_def)

lemma startBatch_frame:
  assumes "startBatch w b t = Inr w'"
  shows "maxConcurrent w' = maxConcurrent w"
    and "b' \<noteq> b \<Longrightarrow> batches w' b' = batches w b'"
    and "b' \<noteq> b \<Longrightarrow> tasks w' b' = tasks w b'"
  using assms by (auto simp: startBatch_def Let_def loop_frame split: option.splits)

lemma startBatch_inv:
  assumes x: "batches w b = Some x" and inv: "batch_inv (maxConcurrent w) x (tasks w b)"
    and st: "bstatus x = BatchCreated"
  shows "\<exists>w' x'. startBatch w b t = Inr w' \<and> batches w' b = Some x'
           \<and> batch_inv (maxConcurrent w) x' (tasks w' b) \<and> bstatus x' = BatchRunning
           \<and> config x' = config x"
proof -
  let ?x1 = "x\<lparr>bstatus := BatchRunning, bstartedAt := Some t\<rparr>"
  define w2 where "w2 = broadcastToBatch (upd_batch w b (\<lambda>b. b\<lparr>bstatus := BatchRunning, bstartedAt := Some t\<rparr>))
                          b (MBatchStarted b (repetitions (config x)))"
  define w3 where "w3 = fold (\<lambda>i w. scheduleRun w b i t) [0 ..< nat (repetitions (config x))] w2"
  have ts: "tasks w b = []" using inv st by (rule batch_inv_created)
  have c: "core_inv (maxConcurrent w) x (tasks w b)" using inv by (simp add: batch_inv_def)
  have m2: "maxConcurrent w2 = maxConcurrent w" and t2: "tasks w2 b = []"
    by (simp_all add: w2_def ts)
  have x2: "batches w2 b = Some ?x1" by (simp add: w2_def x)
  have c2: "core_inv (maxConcurrent w2) ?x1 (tasks w2 b)"
    using c by (simp add: core_inv_def m2 t2 ts)
  have n: "nat (repetitions (config x)) \<le> length (runStatuses ?x1)"
    using c by (simp add: core_inv_def)
  have N: "length (runStatuses x) = nat (repetitions (config x))"
    using c by (simp add: core_inv_def)
  from loop_core [OF x2 c2 n, of t]
  obtain x' where x': "batches w3 b = Some x'"
    "core_inv (maxConcurrent w2) x' (tasks w3 b)"
    "bstatus x' = bstatus ?x1" "config x' = config ?x1"
    "length (runStatuses x') = length (runStatuses ?x1)"
    "length (tasks w3 b) = length (tasks w2 b) + nat (repetitions (config x))"
    unfolding w3_def by blast
  have "length (tasks w3 b) = length (runStatuses x')"
    using x'(5,6) t2 N by simp
  then have "batch_inv (maxConcurrent w) x' (tasks w3 b)"
    using x'(2,3) by (simp add: batch_inv_def m2)
  moreover have "startBatch w b t = Inr w3"
    using x by (simp add: startBatch_def Let_def w3_def w2_def)
  ultimately show ?thesis
    using x' by simp
qed

lemma batch_inv_task_update:
  assumes inv: "batch_inv cap x ts" and k: "k < length ts" and tk: "ts ! k = (i, p)"
    and a: "active (i, p') = active (i, p)" and s: "settled (i, p') = settled (i, p)"
  shows "batch_inv cap x (ts[k := (i, p')])"
proof -
  have i: "i < length (runStatuses x)"
    using core_inv_index [of cap x ts k] inv k tk by (simp add: batch_inv_def)
  have 1: "core_inv cap x (ts[k := (i, p')])"
    using inv k tk a s i by (simp add: batch_inv_def core_inv_def count_update list_all_update)
  have 2: "list_all settled ts \<Longrightarrow> list_all settled (ts[k := (i, p')])"
  proof -
    assume h: "list_all settled ts"
    then have "settled (i, p)" using k tk by (auto simp: list_all_length)
    then show ?thesis using h s by (simp add: list_all_update)
  qed
  show ?thesis
    using inv k 1 2 by (auto simp: batch_inv_def)
qed

lemma on_data_frame:
  "maxConcurrent (on_data w b k o' c t) = maxConcurrent w"
  "batches (on_data w b k o' c t) = batches w"
  "b' \<noteq> b \<Longrightarrow> tasks (on_data w b k o' c t) b' = tasks w b'"
  by (simp_all add: on_data_def split: prod.splits pc.splits)

lemma on_data_inv:
  assumes inv: "batch_inv cap x (tasks w b)" and k: "k < length (tasks w b)"
  shows "batch_inv cap x (tasks (on_data w b k o' c t) b)"
proof (cases "tasks w b ! k")
  case (Pair i p)
  show ?thesis
  proof (cases p)
    case (Scanning st out err)
    then show ?thesis
      using Pair batch_inv_task_update [OF inv k Pair] by (simp add: on_data_def)
  qed (use Pair inv in \<open>simp_all add: on_data_def\<close>)
qed

lemma runScan_settle_frame:
  assumes "runScan_settle w b rid st out err oc t = (w', r)"
  shows "batches w' = batches w \<and> tasks w' = tasks w \<and> maxConcurrent w' = maxConcurrent w
       \<and> sockets w' = sockets w"
  using assms
  by (auto simp: runScan_settle_def runScan_catch_def writeFileSync_def fs_attempt_def
      split: outcome.splits sum.splits list.splits)

lemma on_exit_frame:
  "maxConcurrent (on_exit w b k oc t) = maxConcurrent w"
  "batches (on_exit w b k oc t) = batches w"
  "b' \<noteq> b \<Longrightarrow> tasks (on_exit w b k oc t) b' = tasks w b'"
  by (auto simp: on_exit_def dest: runScan_settle_frame split: prod.splits pc.splits)

lemma on_exit_tasks:
  assumes "tasks w b ! k = (i, Scanning st out err)"
  shows "tasks (on_exit w b k oc t) b
          = (tasks w b)[k := (i, Returned (snd (runScan_settle w b (run_id b i) st out err oc t)))]"
  using assms by (auto simp: on_exit_def dest: runScan_settle_frame split: prod.splits)

lemma on_exit_inv:
  assumes inv: "batch_inv cap x (tasks w b)" and k: "k < length (tasks w b)"
  shows "batch_inv cap x (tasks (on_exit w b k oc t) b)"
proof (cases "tasks w b ! k")
  case (Pair i p)
  show ?thesis
  proof (cases p)
    case (Scanning st out err)
    then show ?thesis
      using Pair batch_inv_task_update [OF inv k Pair] by (simp add: on_exit_tasks)
  qed (use Pair inv in \<open>simp_all add: on_exit_def\<close>)
qed


lemma run_try_frame:
  "maxConcurrent (run_try w b i res t) = maxConcurrent w"
  "tasks (run_try w b i res t) = tasks w"
  "b' \<noteq> b \<Longrightarrow> batches (run_try w b i res t) b' = batches w b'"
  "files (run_try w b i res t) = files w"
  "faulty (run_try w b i res t) = faulty w"
  by (simp_all add: run_try_def run_catch_def Let_def split: option.splits)

lemma run_catch_frame:
  "maxConcurrent (run_catch w b i e t) = maxConcurrent w"
  "tasks (run_catch w b i e t) = tasks w"
  "b' \<noteq> b \<Longrightarrow> batches (run_catch w b i e t) b' = batches w b'"
  "files (run_catch w b i e t) = files w"
  "faulty (run_catch w b i e t) = faulty w"
  by (simp_all add: run_catch_def Let_def split: option.splits)

lemma run_try_batch:
  assumes "batches w b = Some x" "i < length (runStatuses x)"
  shows "batches (run_try w b i res t) b =
           Some (inc_completed (upd_run i (\<lambda>r. r\<lparr>status := RunCompleted, completedAt := Some t,
                                     rduration := Some (duration res), result := Some res\<rparr>)
                   (x\<lparr>runs := runs x @ [\<lparr>e_runIndex = i, e_runId = run_id b i, e_result = Some res,
                                          e_error = None, e_completedAt = t\<rparr>]\<rparr>)))"
  using assms by (simp add: run_try_def Let_def)

lemma run_catch_batch:
  assumes "batches w b = Some x" "i < length (runStatuses x)"
  shows "batches (run_catch w b i e t) b =
           Some ((upd_run i (\<lambda>r. r\<lparr>status := RunFailed, completedAt := Some t,
                                     error := Some (err_message e)\<rparr>) (inc_failed x))
                   \<lparr>runs := runs x @ [\<lparr>e_runIndex = i, e_runId = run_id b i, e_result = None,
                                       e_error = Some (err_message e), e_completedAt = t\<rparr>]\<rparr>)"
  using assms by (simp add: run_catch_def Let_def upd_run_def inc_failed_def)

lemma resume_frame:
  "maxConcurrent (resume w b k t) = maxConcurrent w"
  "b' \<noteq> b \<Longrightarrow> batches (resume w b k t) b' = batches w b'"
  "b' \<noteq> b \<Longrightarrow> tasks (resume w b k t) b' = tasks w b'"
  "files (resume w b k t) = files w"
  "faulty (resume w b k t) = faulty w"
  by (simp_all add: resume_def Let_def run_try_frame run_catch_frame
      split: prod.splits pc.splits sum.splits)

lemma resume_tasks:
  assumes "tasks w b ! k = (i, Returned r)"
  shows "tasks (resume w b k t) b = (tasks w b)[k := (i, Finished)]"
  using assms by (simp add: resume_def Let_def run_try_frame run_catch_frame split: sum.splits)

lemma resume_batch:
  assumes x: "batches w b = Some x" and tk: "tasks w b ! k = (i, Returned r)"
    and i: "i < length (runStatuses x)"
  shows "batches (resume w b k t) b =
          Some (dec_running
           (case r of
              Inr res \<Rightarrow>
                inc_completed (upd_run i (\<lambda>r. r\<lparr>status := RunCompleted, completedAt := Some t,
                                     rduration := Some (duration res), result := Some res\<rparr>)
                   (x\<lparr>runs := runs x @ [\<lparr>e_runIndex = i, e_runId = run_id b i, e_result = Some res,
                                          e_error = None, e_completedAt = t\<rparr>]\<rparr>))
            | Inl e \<Rightarrow>
                (upd_run i (\<lambda>r. r\<lparr>status := RunFailed, completedAt := Some t,
                                     error := Some (err_message e)\<rparr>) (inc_failed x))
                   \<lparr>runs := runs x @ [\<lparr>e_runIndex = i, e_runId = run_id b i, e_result = None,
                                       e_error = Some (err_message e), e_completedAt = t\<rparr>]\<rparr>))"
  using tk run_try_batch [OF x i] run_catch_batch [OF x i]
  by (simp add: resume_def Let_def split: sum.splits)

lemma resume_inv:
  assumes x: "batches w b = Some x" and inv: "batch_inv cap x (tasks w b)"
    and k: "k < length (tasks w b)" and p: "is_returned (snd (tasks w b ! k))"
  shows "\<exists>x'. batches (resume w b k t) b = Some x' \<and> batch_inv cap x' (tasks (resume w b k t) b)
           \<and> bstatus x' = bstatus x \<and> config x' = config x"
proof -
  obtain i r where tk: "tasks w b ! k = (i, Returned r)"
    using p by (cases "tasks w b ! k"; cases "snd (tasks w b ! k)") (auto simp: is_returned_def)
  have i: "i < length (runStatuses x)"
    using core_inv_index [of cap x "tasks w b" k] inv k tk by (simp add: batch_inv_def)
  have ns: "\<not> list_all settled (tasks w b)"
    using k tk by (auto simp: list_all_length)
  note rb = resume_batch [OF x tk i, of t] and rt = resume_tasks [OF tk, of t]
  show ?thesis
  proof (cases r)
    case (Inl e)
    then show ?thesis
      using rb rt inv k tk i ns
      by (auto simp: batch_inv_def core_inv_def count_update list_all_update split: if_splits)
  next
    case (Inr res)
    then show ?thesis
      using rb rt inv k tk i ns
      by (auto simp: batch_inv_def core_inv_def count_update list_all_update split: if_splits)
  qed
qed

lemma generateMarkdownReport_frame:
  assumes "generateMarkdownReport env w rid res b t = (w', r)"
  shows "batches w' = batches w \<and> tasks w' = tasks w \<and> maxConcurrent w' = maxConcurrent w"
  using assms
  by (auto simp: generateMarkdownReport_def Let_def dest: writeFileSync_frame
      split: option.splits sum.splits)

lemma generateMarkdownReports_frame:
  "batches (generateMarkdownReports env b t rs w) = batches w
   \<and> tasks (generateMarkdownReports env b t rs w) = tasks w
   \<and> maxConcurrent (generateMarkdownReports env b t rs w) = maxConcurrent w"
proof (induction rs arbitrary: w)
  case Nil
  show ?case by simp
next
  case (Cons r rs)
  show ?case
    by (auto simp: Cons dest: generateMarkdownReport_frame split: option.splits sum.splits prod.splits)
qed

lemma finalizeBatch_frame:
  "maxConcurrent (finalizeBatch env w b t) = maxConcurrent w"
  "tasks (finalizeBatch env w b t) = tasks w"
  "batches (finalizeBatch env w b t)
     = (batches w)(b := map_option (\<lambda>b. b\<lparr>bstatus := BatchCompleted, bcompletedAt := Some t\<rparr>) (batches w b))"
  by (simp_all add: finalizeBatch_def Let_def generateMarkdownReports_frame split: option.splits)

lemma finalizeBatch_inv:
  assumes "batch_inv cap x ts" "list_all (\<lambda>tk. snd tk = Finished) ts" "bstatus x = BatchRunning"
  shows "batch_inv cap (x\<lparr>bstatus := BatchCompleted, bcompletedAt := Some t\<rparr>) ts"
proof -
  have "settled = (\<lambda>tk. snd tk = Finished)" by (rule ext) (simp add: settled_def)
  then show ?thesis using assms by (simp add: batch_inv_def core_inv_def)
qed

lemma createBatch_frame:
  "maxConcurrent (fst (createBatch w cfg now rnd)) = maxConcurrent w"
  "tasks (fst (createBatch w cfg now rnd)) = tasks w"
  "b' \<noteq> new_batch_id cfg now rnd \<Longrightarrow> batches (fst (createBatch w cfg now rnd)) b' = batches w b'"
  by (simp_all add: createBatch_def Let_def ensureBatchDirectory_def fs_attempt_def
      split: prod.splits list.splits)

lemma createBatch_inv:
  "\<exists>x. batches (fst (createBatch w cfg now rnd)) (new_batch_id cfg now rnd) = Some x
       \<and> batch_inv 3 x [] \<and> bstatus x = BatchCreated \<and> config x = cfg"
  by (auto simp: createBatch_def Let_def batch_inv_def core_inv_def ensureBatchDirectory_def fs_attempt_def
      split: prod.splits list.splits)

lemma batch_inv_clients [simp]:
  "batch_inv cap (x\<lparr>clients := c\<rparr>) ts = batch_inv cap x ts"
  by (simp add: batch_inv_def core_inv_def)

lemma subscribeClient_frame:
  "maxConcurrent (subscribeClient w b ws) = maxConcurrent w"
  "tasks (subscribeClient w b ws) = tasks w"
  "faulty (subscribeClient w b ws) = faulty w"
  "files (subscribeClient w b ws) = files w"
  "batches (subscribeClient w b ws)
     = (batches w)(b := map_option (\<lambda>b. b\<lparr>clients := set_add ws (clients b)\<rparr>) (batches w b))"
  by (auto simp: subscribeClient_def Let_def split: option.splits)

lemma close_fold_frame:
  "maxConcurrent (fold (\<lambda>batchId w. upd_batch w batchId (\<lambda>b. b\<lparr>clients := set_delete ws (clients b)\<rparr>)) hs w) = maxConcurrent w
   \<and> tasks (fold (\<lambda>batchId w. upd_batch w batchId (\<lambda>b. b\<lparr>clients := set_delete ws (clients b)\<rparr>)) hs w) = tasks w
   \<and> faulty (fold (\<lambda>batchId w. upd_batch w batchId (\<lambda>b. b\<lparr>clients := set_delete ws (clients b)\<rparr>)) hs w) = faulty w
   \<and> (\<exists>c. batches (fold (\<lambda>batchId w. upd_batch w batchId (\<lambda>b. b\<lparr>clients := set_delete ws (clients b)\<rparr>)) hs w) b
           = map_option (\<lambda>b. b\<lparr>clients := c\<rparr>) (batches w b))"
proof (induction hs arbitrary: w)
  case Nil
  have "batches w b = map_option (\<lambda>y. y\<lparr>clients := clients (the (batches w b))\<rparr>) (batches w b)"
    by (cases "batches w b") simp_all
  then show ?case by auto
next
  case (Cons h hs)
  let ?w1 = "upd_batch w h (\<lambda>b. b\<lparr>clients := set_delete ws (clients b)\<rparr>)"
  from Cons [of ?w1] obtain c where
    c: "batches (fold (\<lambda>batchId w. upd_batch w batchId (\<lambda>b. b\<lparr>clients := set_delete ws (clients b)\<rparr>)) hs ?w1) b
           = map_option (\<lambda>b. b\<lparr>clients := c\<rparr>) (batches ?w1 b)"
    by blast
  have "map_option (\<lambda>b. b\<lparr>clients := c\<rparr>) (batches ?w1 b) = map_option (\<lambda>b. b\<lparr>clients := c\<rparr>) (batches w b)"
    by (cases "batches w b") auto
  with c Cons [of ?w1] show ?case by auto
qed

lemma on_close_frame:
  "maxConcurrent (on_close w ws) = maxConcurrent w"
  "tasks (on_close w ws) = tasks w"
  "faulty (on_close w ws) = faulty w"
  "\<exists>c. batches (on_close w ws) b = map_option (\<lambda>b. b\<lparr>clients := c\<rparr>) (batches w b)"
  unfolding on_close_def Let_def
  using close_fold_frame [of ws "closeHandlers (sockets w ws)"
      "w\<lparr>sockets := (sockets w)(ws := (sockets w ws)\<lparr>readyState := 3\<rparr>)\<rparr>" b]
  by simp_all

lemma world_inv_local:
  assumes inv: "world_inv w" and m: "maxConcurrent w' = maxConcurrent w"
    and fr: "\<And>b'. b' \<noteq> b \<Longrightarrow> batches w' b' = batches w b' \<and> tasks w' b' = tasks w b'"
    and loc: "batches w' b = None \<Longrightarrow> tasks w' b = []"
      "\<And>x. batches w' b = Some x \<Longrightarrow> batch_inv 3 x (tasks w' b)"
  shows "world_inv w'"
  unfolding world_inv_def
proof (intro conjI allI impI)
  show "maxConcurrent w' = 3" using inv m by (simp add: world_inv_def)
next
  fix c
  assume "batches w' c = None"
  then show "tasks w' c = []"
    using fr [of c] inv loc(1) by (cases "c = b") (auto simp: world_inv_def)
next
  fix c x
  assume "batches w' c = Some x"
  then show "batch_inv 3 x (tasks w' c)"
    using fr [of c] inv loc(2) by (cases "c = b") (auto simp: world_inv_def)
qed

lemma world_inv_batch:
  "world_inv w \<Longrightarrow> batches w b = Some x \<Longrightarrow> batch_inv 3 x (tasks w b)"
  by (simp add: world_inv_def)

lemma world_inv_none:
  "world_inv w \<Longrightarrow> batches w b = None \<Longrightarrow> tasks w b = []"
  by (simp add: world_inv_def)

lemma pc_at_Some: "pc_at w b k = Some p \<Longrightarrow> k < length (tasks w b) \<and> snd (tasks w b ! k) = p"
  by (auto simp: pc_at_def split: if_splits)

lemma step_inv:
  assumes inv: "world_inv w" and st: "step env w ev = Some w'"
  shows "world_inv w'"
proof (cases ev)
  case (Create cfg t rnd)
  with st have fresh: "batches w (new_batch_id cfg t rnd) = None" and w': "w' = fst (createBatch w cfg t rnd)"
    by (auto split: if_splits)
  have "tasks w (new_batch_id cfg t rnd) = []" using inv fresh by (rule world_inv_none)
  then show ?thesis
    unfolding w' using createBatch_inv [of w cfg t rnd]
    by (intro world_inv_local [OF inv, of _ "new_batch_id cfg t rnd"]) (auto simp: createBatch_frame)
next
  case (Start b t)
  show ?thesis
  proof (cases "batches w b")
    case None
    with st Start show ?thesis using inv by simp
  next
    case (Some x)
    with st Start have c: "bstatus x = BatchCreated"
      by (auto split: if_splits)
    have bi: "batch_inv (maxConcurrent w) x (tasks w b)"
      using world_inv_batch [OF inv Some] inv by (simp add: world_inv_def)
    from startBatch_inv [OF Some bi c, of t] obtain w2 x' where
      s: "startBatch w b t = Inr w2" "batches w2 b = Some x'" "batch_inv (maxConcurrent w) x' (tasks w2 b)"
      by blast
    have "w' = w2" using st Start Some c s by simp
    then show ?thesis
      using s inv startBatch_frame [OF s(1)]
      by (intro world_inv_local [OF inv, of _ b]) (auto simp: world_inv_def)
  qed
next
  case (Wake b k t)
  with st have p: "pc_at w b k = Some Waiting" and w': "w' = admission w b k t"
    by (auto split: if_splits)
  from pc_at_Some [OF p] have k: "k < length (tasks w b)" "snd (tasks w b ! k) = Waiting" by auto
  then obtain x where x: "batches w b = Some x"
    using world_inv_none [OF inv, of b] by (cases "batches w b") auto
  have bi: "batch_inv 3 x (tasks w b)" using inv x by (rule world_inv_batch)
  have m: "maxConcurrent w = 3" using inv by (simp add: world_inv_def)
  have ci: "core_inv (maxConcurrent w) x (tasks w b)" using bi m by (simp add: batch_inv_def)
  from admission_core [OF x ci k, of t] obtain x' where
    x': "batches (admission w b k t) b = Some x'" "core_inv (maxConcurrent w) x' (tasks (admission w b k t) b)"
        "bstatus x' = bstatus x" "config x' = config x"
        "length (tasks (admission w b k t) b) = length (tasks w b)"
    by blast
  have ns: "\<not> list_all settled (tasks w b)"
    using k by (auto simp: list_all_length settled_def)
  have "length (runStatuses x') = length (runStatuses x)"
    using ci x'(2) x'(4) by (rule core_inv_runStatuses)
  then have "batch_inv 3 x' (tasks (admission w b k t) b)"
    using bi x' m ns k by (auto simp: batch_inv_def split: if_splits)
  then show ?thesis
    unfolding w' using x'
    by (intro world_inv_local [OF inv, of _ b]) (auto simp: admission_frame)
next
  case (Chunk b k o' c t)
  with st obtain p where p: "pc_at w b k = Some p" and w': "w' = on_data w b k o' c t"
    by (auto split: option.splits if_splits)
  from pc_at_Some [OF p] have k: "k < length (tasks w b)" by auto
  then obtain x where x: "batches w b = Some x"
    using world_inv_none [OF inv, of b] by (cases "batches w b") auto
  have bi: "batch_inv 3 x (tasks w b)" using inv x by (rule world_inv_batch)
  show ?thesis
    unfolding w' using on_data_inv [OF bi k, of o' c t] x
    by (intro world_inv_local [OF inv, of _ b]) (auto simp: on_data_frame)
next
  case (Exit b k oc t)
  with st obtain p where p: "pc_at w b k = Some p" and w': "w' = on_exit w b k oc t"
    by (auto split: option.splits if_splits)
  from pc_at_Some [OF p] have k: "k < length (tasks w b)" by auto
  then obtain x where x: "batches w b = Some x"
    using world_inv_none [OF inv, of b] by (cases "batches w b") auto
  have bi: "batch_inv 3 x (tasks w b)" using inv x by (rule world_inv_batch)
  show ?thesis
    unfolding w' using on_exit_inv [OF bi k, of oc t] x
    by (intro world_inv_local [OF inv, of _ b]) (auto simp: on_exit_frame)
next
  case (Resume b k t)
  with st obtain p where p: "pc_at w b k = Some p" "is_returned p" and w': "w' = resume w b k t"
    by (auto split: option.splits if_splits)
  from pc_at_Some [OF p(1)] p(2) have k: "k < length (tasks w b)" "is_returned (snd (tasks w b ! k))" by auto
  then obtain x where x: "batches w b = Some x"
    using world_inv_none [OF inv, of b] by (cases "batches w b") auto
  have bi: "batch_inv 3 x (tasks w b)" using inv x by (rule world_inv_batch)
  show ?thesis
    unfolding w' using resume_inv [OF x bi k, of t]
    by (intro world_inv_local [OF inv, of _ b]) (auto simp: resume_frame)
next
  case (Finalize b t)
  with st obtain x where x: "batches w b = Some x" "bstatus x = BatchRunning"
      "list_all (\<lambda>tk. snd tk = Finished) (tasks w b)" and w': "w' = finalizeBatch env w b t"
    by (auto split: option.splits if_splits)
  have bi: "batch_inv 3 x (tasks w b)" using inv x(1) by (rule world_inv_batch)
  show ?thesis
    unfolding w' using finalizeBatch_inv [OF bi x(3) x(2), of t] x
    by (intro world_inv_local [OF inv, of _ b]) (auto simp: finalizeBatch_frame)
next
  case (Subscribe b ws)
  with st have w': "w' = subscribeClient w b ws" by simp
  show ?thesis
    unfolding w' using inv
    by (intro world_inv_local [OF inv, of _ b])
       (auto simp: subscribeClient_frame world_inv_def)
next
  case (Close ws)
  with st have w': "w' = on_close w ws" by simp
  show ?thesis
    unfolding world_inv_def
  proof (intro conjI allI impI)
    show "maxConcurrent w' = 3" using inv by (simp add: w' on_close_frame world_inv_def)
  next
    fix b
    obtain c where c: "batches (on_close w ws) b = map_option (\<lambda>b. b\<lparr>clients := c\<rparr>) (batches w b)"
      using on_close_frame(4) by blast
    assume "batches w' b = None"
    then show "tasks w' b = []"
      using inv c by (cases "batches w b") (auto simp: w' on_close_frame world_inv_def)
  next
    fix b x
    obtain c where c: "batches (on_close w ws) b = map_option (\<lambda>b. b\<lparr>clients := c\<rparr>) (batches w b)"
      using on_close_frame(4) by blast
    assume "batches w' b = Some x"
    then show "batch_inv 3 x (tasks w' b)"
      using inv c by (cases "batches w b") (auto simp: w' on_close_frame world_inv_def)
  qed
next
  case (Fault p ms)
  with st have w': "w' = w\<lparr>faulty := (faulty w)(p := ms)\<rparr>" by simp
  show ?thesis using inv unfolding w' by (simp add: world_inv_def)
qed

lemma run_events_inv:
  "world_inv w \<Longrightarrow> run_events env w evs = Some w' \<Longrightarrow> world_inv w'"
proof (induction evs arbitrary: w)
  case Nil
  then show ?case by simp
next
  case (Cons e evs)
  then show ?case by (auto split: option.splits dest: step_inv)
qed

lemma new_world_inv: "world_inv (new_world socks fs flt)"
  by (simp add: world_inv_def new_world_def)

lemma reachable_inv:
  "run_events env (new_world socks fs flt) evs = Some w \<Longrightarrow> world_inv w"
  using new_world_inv by (rule run_events_inv)

lemma run_events_append:
  "run_events env w (es1 @ es2) = (case run_events env w es1 of None \<Rightarrow> None | Some w1 \<Rightarrow> run_events env w1 es2)"
  by (induction es1 arbitrary: w) (auto split: option.splits)

lemma pc_at_eq: "k < length (tasks w b) \<Longrightarrow> pc_at w b k = Some (snd (tasks w b ! k))"
  by (simp add: pc_at_def)

lemma finish_returned:
  assumes inv: "world_inv w" and x: "batches w b = Some x" and k: "k < length (tasks w b)"
    and tk: "tasks w b ! k = (i, Returned r)"
  shows "\<exists>w' x'. run_events env w [Resume b k t] = Some w' \<and> batches w' b = Some x'
           \<and> bstatus x' = bstatus x \<and> tasks w' b = (tasks w b)[k := (i, Finished)]"
proof -
  have bi: "batch_inv 3 x (tasks w b)" using inv x by (rule world_inv_batch)
  have p: "is_returned (snd (tasks w b ! k))" using tk by (simp add: is_returned_def)
  from resume_inv [OF x bi k p, of t] obtain x' where
    "batches (resume w b k t) b = Some x'" "bstatus x' = bstatus x" by blast
  then show ?thesis
    using k p tk by (simp add: pc_at_eq resume_tasks)
qed

lemma finish_scanning:
  assumes inv: "world_inv w" and x: "batches w b = Some x" and k: "k < length (tasks w b)"
    and tk: "tasks w b ! k = (i, Scanning st out err)"
  shows "\<exists>w' x'. run_events env w [Exit b k oc t, Resume b k t'] = Some w' \<and> batches w' b = Some x'
           \<and> bstatus x' = bstatus x \<and> tasks w' b = (tasks w b)[k := (i, Finished)]"
proof -
  let ?w1 = "on_exit w b k oc t"
  have s1: "step env w (Exit b k oc t) = Some ?w1"
    using k tk by (simp add: pc_at_eq is_scanning_def)
  have inv1: "world_inv ?w1" using inv s1 by (rule step_inv)
  have x1: "batches ?w1 b = Some x" using x by (simp add: on_exit_frame)
  have t1: "tasks ?w1 b = (tasks w b)[k := (i, Returned (snd (runScan_settle w b (run_id b i) st out err oc t)))]"
    using tk by (rule on_exit_tasks)
  have k1: "k < length (tasks ?w1 b)" using k t1 by simp
  have tk1: "tasks ?w1 b ! k = (i, Returned (snd (runScan_settle w b (run_id b i) st out err oc t)))"
    using k t1 by simp
  from finish_returned [OF inv1 x1 k1 tk1, of env t'] obtain w' x' where
    "run_events env ?w1 [Resume b k t'] = Some w'" "batches w' b = Some x'" "bstatus x' = bstatus x"
    "tasks w' b = (tasks ?w1 b)[k := (i, Finished)]" by blast
  then show ?thesis
    using s1 t1 by simp
qed

lemma finish_waiting:
  assumes inv: "world_inv w" and x: "batches w b = Some x" and k: "k < length (tasks w b)"
    and tk: "tasks w b ! k = (i, Waiting)" and free: "running (progress x) < 3"
  shows "\<exists>w' x'. run_events env w [Wake b k t, Exit b k oc t', Resume b k t''] = Some w' \<and> batches w' b = Some x'
           \<and> bstatus x' = bstatus x \<and> tasks w' b = (tasks w b)[k := (i, Finished)]"
proof -
  let ?w1 = "admission w b k t"
  have m: "maxConcurrent w = 3" using inv by (simp add: world_inv_def)
  have bi: "batch_inv 3 x (tasks w b)" using inv x by (rule world_inv_batch)
  have i: "fst (tasks w b ! k) < length (runStatuses x)"
    using core_inv_index [of 3 x "tasks w b" k] bi k by (simp add: batch_inv_def)
  have s1: "step env w (Wake b k t) = Some ?w1"
    using k tk by (simp add: pc_at_eq)
  have inv1: "world_inv ?w1" using inv s1 by (rule step_inv)
  from admission_batch [OF x i, of t] free m tk
  obtain x1 where x1: "batches ?w1 b = Some x1" "bstatus x1 = bstatus x"
    and t1: "tasks ?w1 b = (tasks w b)[k := (i, Scanning t [] [])]"
    by simp
  have k1: "k < length (tasks ?w1 b)" using k t1 by simp
  have tk1: "tasks ?w1 b ! k = (i, Scanning t [] [])" using k t1 by simp
  from finish_scanning [OF inv1 x1(1) k1 tk1, of env oc t' t''] obtain w' x' where
    "run_events env ?w1 [Exit b k oc t', Resume b k t''] = Some w'" "batches w' b = Some x'"
    "bstatus x' = bstatus x1" "tasks w' b = (tasks ?w1 b)[k := (i, Finished)]" by blast
  then show ?thesis
    using s1 t1 x1 by simp
qed

lemma finish_one:
  assumes inv: "world_inv w" and x: "batches w b = Some x" and k: "k < length (tasks w b)"
    and ns: "\<not> settled (tasks w b ! k)"
    and free: "active (tasks w b ! k) \<or> running (progress x) < 3"
  shows "\<exists>evs w' x'. run_events env w evs = Some w' \<and> batches w' b = Some x'
           \<and> bstatus x' = bstatus x \<and> tasks w' b = (tasks w b)[k := (fst (tasks w b ! k), Finished)]"
proof (cases "tasks w b ! k")
  case (Pair i p)
  show ?thesis
  proof (cases p)
    case Waiting
    with Pair free have "running (progress x) < 3" by simp
    from finish_waiting [OF inv x k _ this, of i env 0 "Exited 0" 0 0] Pair Waiting
    show ?thesis by (metis fst_conv)
  next
    case (Scanning st out err)
    from finish_scanning [OF inv x k, of i st out err env "Exited 0" 0 0] Pair Scanning
    show ?thesis by (metis fst_conv)
  next
    case (Returned r)
    from finish_returned [OF inv x k, of i r env 0] Pair Returned
    show ?thesis by (metis fst_conv)
  next
    case Finished
    with Pair ns show ?thesis by simp
  qed
qed

lemma exists_index: "filter P xs \<noteq> [] \<Longrightarrow> \<exists>k < length xs. P (xs ! k)"
  by (metis filter_False in_set_conv_nth)

lemma drain:
  assumes "world_inv w" "batches w b = Some x" "bstatus x = BatchRunning"
    "length (filter (\<lambda>tk. \<not> settled tk) (tasks w b)) = n"
  shows "\<exists>evs w' x'. run_events env w evs = Some w' \<and> batches w' b = Some x' \<and> bstatus x' = BatchCompleted"
  using assms
proof (induction n arbitrary: w x)
  case 0
  then have "list_all (\<lambda>tk. snd tk = Finished) (tasks w b)"
    by (auto simp: list_all_iff filter_empty_conv settled_def)
  then have "step env w (Finalize b 0) = Some (finalizeBatch env w b 0)"
    using 0 by simp
  then have "run_events env w [Finalize b 0] = Some (finalizeBatch env w b 0)
     \<and> batches (finalizeBatch env w b 0) b = Some (x\<lparr>bstatus := BatchCompleted, bcompletedAt := Some 0\<rparr>)"
    using 0 by (simp add: finalizeBatch_frame)
  then show ?case
    by (intro exI [of _ "[Finalize b 0]"] exI [of _ "finalizeBatch env w b 0"]
        exI [of _ "x\<lparr>bstatus := BatchCompleted, bcompletedAt := Some 0\<rparr>"]) simp
next
  case (Suc n)
  let ?ts = "tasks w b"
  have bi: "batch_inv 3 x ?ts" using Suc.prems(1,2) by (rule world_inv_batch)
  have "\<exists>k < length ?ts. \<not> settled (?ts ! k) \<and> (active (?ts ! k) \<or> running (progress x) < 3)"
  proof (cases "filter active ?ts = []")
    case True
    then have "running (progress x) = 0" using bi by (simp add: batch_inv_def core_inv_def)
    moreover have "filter (\<lambda>tk. \<not> settled tk) ?ts \<noteq> []" using Suc.prems(4) by auto
    ultimately show ?thesis using exists_index [of "\<lambda>tk. \<not> settled tk" ?ts] by auto
  next
    case False
    from exists_index [OF this] obtain k where "k < length ?ts" "active (?ts ! k)" by blast
    moreover have "\<not> settled (?ts ! k)"
      using calculation(2) by (cases "?ts ! k"; cases "snd (?ts ! k)") (auto simp: active_def settled_def is_scanning_def is_returned_def)
    ultimately show ?thesis by blast
  qed
  then obtain k where k: "k < length ?ts" "\<not> settled (?ts ! k)" "active (?ts ! k) \<or> running (progress x) < 3"
    by blast
  from finish_one [OF Suc.prems(1,2) k, of env] obtain evs w' x' where
    r: "run_events env w evs = Some w'" "batches w' b = Some x'" "bstatus x' = bstatus x"
       "tasks w' b = ?ts[k := (fst (?ts ! k), Finished)]" by blast
  have inv': "world_inv w'" using Suc.prems(1) r(1) by (rule run_events_inv)
  have "int (length (filter (\<lambda>tk. \<not> settled tk) (tasks w' b))) = int n"
    using k Suc.prems(4) by (simp add: r(4) count_update)
  then have n': "length (filter (\<lambda>tk. \<not> settled tk) (tasks w' b)) = n" by simp
  from Suc.IH [OF inv' r(2) _ n'] r(3) Suc.prems(3) obtain evs' w'' x'' where
    "run_events env w' evs' = Some w''" "batches w'' b = Some x''" "bstatus x'' = BatchCompleted"
    by auto
  then have "run_events env w (evs @ evs') = Some w'' \<and> batches w'' b = Some x'' \<and> bstatus x'' = BatchCompleted"
    using r(1) by (simp add: run_events_append)
  then show ?case by blast
qed

lemma can_complete:
  assumes inv: "world_inv w" and x: "batches w b = Some x"
  shows "\<exists>evs w' x'. run_events env w evs = Some w' \<and> batches w' b = Some x' \<and> bstatus x' = BatchCompleted"
proof (cases "bstatus x")
  case BatchCreated
  have bi: "batch_inv (maxConcurrent w) x (tasks w b)"
    using world_inv_batch [OF inv x] inv by (simp add: world_inv_def)
  from startBatch_inv [OF x bi BatchCreated, of 0] obtain w1 x1 where
    s: "startBatch w b 0 = Inr w1" "batches w1 b = Some x1" "bstatus x1 = BatchRunning" by blast
  have s1: "run_events env w [Start b 0] = Some w1"
    using x BatchCreated s by simp
  have inv1: "world_inv w1" using inv s1 by (rule run_events_inv)
  from drain [OF inv1 s(2,3) refl, of env] obtain evs' w'' x'' where
    "run_events env w1 evs' = Some w''" "batches w'' b = Some x''" "bstatus x'' = BatchCompleted"
    by blast
  then have "run_events env w ([Start b 0] @ evs') = Some w'' \<and> batches w'' b = Some x'' \<and> bstatus x'' = BatchCompleted"
    using s1 unfolding run_events_append by simp
  then show ?thesis by blast
next
  case BatchRunning
  from drain [OF inv x BatchRunning refl] show ?thesis .
next
  case BatchCompleted
  then have "run_events env w [] = Some w \<and> batches w b = Some x \<and> bstatus x = BatchCompleted"
    using x by simp
  then show ?thesis by blast
qed
lemma all_settled_counts:
  assumes "list_all settled ts"
  shows "filter settled ts = ts" and "filter active ts = []"
proof -
  show "filter settled ts = ts" using assms by (simp add: list_all_iff)
  have "\<And>tk. settled tk \<Longrightarrow> \<not> active tk"
    by (simp add: settled_def active_def is_scanning_def is_returned_def)
  then show "filter active ts = []"
    using assms by (auto simp: list_all_iff filter_empty_conv)
qed

lemma world_after_Some: "run_events env w evs = Some w' \<Longrightarrow> world_after env w evs = w'"
  by (simp add: world_after_def)

lemma counters_after:
  assumes "counters_of (world_after env (new_world socks fs flt) evs) batchId = Some c"
  shows "\<exists>w b. run_events env (new_world socks fs flt) evs = Some w \<and> batches w batchId = Some b
           \<and> world_after env (new_world socks fs flt) evs = w \<and> progress b = c"
proof (cases "run_events env (new_world socks fs flt) evs")
  case None
  then show ?thesis using assms by (simp add: world_after_def counters_of_def new_world_def)
next
  case (Some w)
  then show ?thesis using assms by (auto simp: world_after_def counters_of_def)
qed

lemmas exec_defs = world_after_def run_events_def createBatch_def new_batch_id_def new_run_status_def
  ensureBatchDirectory_def startBatch_def scheduleRun_def admission_def on_data_def on_exit_def
  runScan_settle_def runScan_catch_def resume_def run_try_def run_catch_def
  subscribeClient_def on_close_def broadcastToBatch_def send_if_open_def
  set_add_def set_delete_def upd_batch_def set_pc_def upd_run_def inc_running_def dec_running_def
  inc_completed_def inc_failed_def writeFileSync_def fs_attempt_def raw_path_def report_path_def path_join_def
  ARTIFACTS_DIR_def run_id_def pc_at_def is_scanning_def is_returned_def err_message_def
  err_exitCode_def new_world_def bind_def
  state_of_def counters_of_def run_states_def run_errors_def run_results_def active_count_def
  running_of_def total_running_def active_def settled_def
  ex_world_def ex_faults_def ex_env_def ex_config_def ex_sockets_def ex_socket_def show_int_def Let_def
  upt_conv_Cons finalizeBatch_frame

lemmas exec_congs = if_weak_cong let_weak_cong option.case_cong_weak sum.case_cong_weak
  prod.case_cong_weak pc.case_cong_weak outcome.case_cong_weak list.case_cong_weak

lemma runScan_settle_ok:
  assumes "faulty w (raw_path b rid) = []"
  shows "runScan_settle w b rid st out err oc t =
           (w\<lparr>files := (files w)(raw_path b rid \<mapsto> out)\<rparr>,
            Inr (case oc of
                   Exited c \<Rightarrow> \<lparr>scriptRunId = rid @ ''_'' @ show_int st, exitCode = Some c, stdout = out,
                                  stderr = err, rerror = None, duration = t - st, success = True\<rparr>
                 | Rejected c m \<Rightarrow> \<lparr>scriptRunId = rid @ ''_'' @ show_int st, exitCode = c, stdout = out,
                                  stderr = err, rerror = Some m, duration = t - st, success = False\<rparr>))"
  using assms
  by (simp add: runScan_settle_def runScan_catch_def writeFileSync_def fs_attempt_def err_exitCode_def
      err_message_def split: outcome.splits)

lemma runScan_settle_retry:
  assumes "faulty w (raw_path b rid) = [m]"
  shows "runScan_settle w b rid st out err (Exited c) t =
           (w\<lparr>faulty := (faulty w)(raw_path b rid := []), files := (files w)(raw_path b rid \<mapsto> out)\<rparr>,
            Inr \<lparr>scriptRunId = rid @ ''_'' @ show_int st, exitCode = None, stdout = out,
                 stderr = err, rerror = Some m, duration = t - st, success = False\<rparr>)"
  using assms
  by (simp add: runScan_settle_def runScan_catch_def writeFileSync_def fs_attempt_def err_exitCode_def
      err_message_def)

lemma runScan_settle_rejects:
  assumes "runScan_settle w b rid st out err oc t = (w', Inl e)"
  shows "(\<exists>m. e = FsError m \<and> m \<in> set (faulty w (raw_path b rid))) \<and> files w' = files w"
  using assms
  by (auto simp: runScan_settle_def runScan_catch_def writeFileSync_def fs_attempt_def
      split: outcome.splits list.splits)

lemma exit_then_resume:
  assumes x: "batches w b = Some x" and k: "k < length (tasks w b)"
    and tk: "tasks w b ! k = (i, Scanning st out err)" and i: "i < length (runStatuses x)"
  shows "batches (resume (on_exit w b k oc t) b k t') b =
          Some (dec_running
           (case snd (runScan_settle w b (run_id b i) st out err oc t) of
              Inr res \<Rightarrow>
                inc_completed (upd_run i (\<lambda>r. r\<lparr>status := RunCompleted, completedAt := Some t',
                                     rduration := Some (duration res), result := Some res\<rparr>)
                   (x\<lparr>runs := runs x @ [\<lparr>e_runIndex = i, e_runId = run_id b i, e_result = Some res,
                                          e_error = None, e_completedAt = t'\<rparr>]\<rparr>))
            | Inl e \<Rightarrow>
                (upd_run i (\<lambda>r. r\<lparr>status := RunFailed, completedAt := Some t',
                                     error := Some (err_message e)\<rparr>) (inc_failed x))
                   \<lparr>runs := runs x @ [\<lparr>e_runIndex = i, e_runId = run_id b i, e_result = None,
                                       e_error = Some (err_message e), e_completedAt = t'\<rparr>]\<rparr>))"
proof -
  let ?w1 = "on_exit w b k oc t"
  have x1: "batches ?w1 b = Some x" using x by (simp add: on_exit_frame)
  have tk1: "tasks ?w1 b ! k = (i, Returned (snd (runScan_settle w b (run_id b i) st out err oc t)))"
    using k by (simp add: on_exit_tasks [OF tk])
  show ?thesis by (rule resume_batch [OF x1 tk1 i])
qed

lemma exit_resume_events:
  assumes "k < length (tasks w b)" and "tasks w b ! k = (i, Scanning st out err)"
  shows "run_events env w [Exit b k oc t, Resume b k t'] = Some (resume (on_exit w b k oc t) b k t')"
  using assms by (simp add: pc_at_def is_scanning_def is_returned_def on_exit_tasks)


section \<open>The concurrency cap of a batch\<close>

text \<open>
  C1. In every state of every execution that starts from a new manager, the counter
  \<open>progress.running\<close> of every batch is at most the cap \<open>maxConcurrent = 3\<close>, whatever the
  number of runs of the batch and whatever the interleaving of its scheduling tasks. The
  counter equals the number of tasks between their admission and their \<^verbatim>\<open>finally\<close>
  block: \<open>scheduleRun\<close> increments it in the same step in which it finds it below the
  cap, and decrements it once, when the run has ended.
\<close>

theorem running_never_exceeds_cap:
  assumes "run_events env (new_world socks fs flt) evs = Some w" and "batches w batchId = Some b"
  shows "running (progress b) \<le> maxConcurrent w \<and> maxConcurrent w = 3
       \<and> running (progress b) = int (active_count w batchId)"
proof -
  have "world_inv w" using assms(1) by (rule reachable_inv)
  then have "maxConcurrent w = 3" and "batch_inv 3 b (tasks w batchId)"
    using assms(2) by (simp_all add: world_inv_def)
  then show ?thesis
    by (simp add: batch_inv_def core_inv_def active_count_def)
qed


text \<open>An execution for C1: a batch of ten runs is created and started; three runs are
  admitted and seven wait.\<close>

theorem running_never_exceeds_cap_witness:
  "counters_of (world_after ex_env (new_world ex_sockets Map.empty ex_faults)
       [Create (ex_config 10) 0 ''x'', Start ''batch_0_x_zap'' 1]) ''batch_0_x_zap''
     = Some \<lparr>total_p = 10, completed = 0, running = 3, failed = 0\<rparr>
   \<and> running_of (world_after ex_env (new_world ex_sockets Map.empty ex_faults)
       [Create (ex_config 10) 0 ''x'', Start ''batch_0_x_zap'' 1]) ''batch_0_x_zap'' \<le> 3"
proof -
  define T where "T = [Create (ex_config 10) 0 ''x'', Start ''batch_0_x_zap'' 1]"
  have c: "counters_of (world_after ex_env (new_world ex_sockets Map.empty ex_faults) T) ''batch_0_x_zap''
             = Some \<lparr>total_p = 10, completed = 0, running = 3, failed = 0\<rparr>"
    unfolding T_def by (simp add: exec_defs cong: exec_congs)
  from counters_after [OF c] obtain w b where
    w: "run_events ex_env (new_world ex_sockets Map.empty ex_faults) T = Some w" "batches w ''batch_0_x_zap'' = Some b"
       "world_after ex_env (new_world ex_sockets Map.empty ex_faults) T = w"
    by blast
  from running_never_exceeds_cap [OF w(1) w(2)]
  have "running_of (world_after ex_env (new_world ex_sockets Map.empty ex_faults) T) ''batch_0_x_zap'' \<le> 3"
    by (simp add: running_of_def w)
  with c show ?thesis unfolding T_def by blast
qed

section \<open>The counters of a completed batch\<close>

text \<open>
  C2. In every state of every execution that starts from a new manager, a batch with a
  valid number of repetitions \<open>N \<ge> 1\<close> whose status is \<open>completed\<close> has
  \<open>progress.completed + progress.failed = N\<close> and \<open>progress.running = 0\<close>: every
  scheduling task has counted its run once, as completed or as failed, and has
  decremented the counter of running runs once.
\<close>

theorem completed_batch_counts:
  assumes "run_events env (new_world socks fs flt) evs = Some w" and "batches w batchId = Some b"
    and "bstatus b = BatchCompleted" and "1 \<le> repetitions (config b)"
  shows "completed (progress b) + failed (progress b) = repetitions (config b)
       \<and> running (progress b) = 0"
proof -
  have "world_inv w" using assms(1) by (rule reachable_inv)
  then have bi: "batch_inv 3 b (tasks w batchId)"
    using assms(2) by (simp add: world_inv_def)
  then have s: "list_all settled (tasks w batchId)"
    and l: "length (tasks w batchId) = length (runStatuses b)"
    using assms(3) by (simp_all add: batch_inv_def)
  have n: "nat (repetitions (config b)) = length (runStatuses b)"
    using bi by (simp add: batch_inv_def core_inv_def)
  have "completed (progress b) + failed (progress b) = int (length (tasks w batchId))"
    and "running (progress b) = 0"
    using bi all_settled_counts [OF s] by (simp_all add: batch_inv_def core_inv_def)
  then show ?thesis
    using l n assms(4) by simp
qed



text \<open>An execution for C2: two runs, the two writes of the raw artifact of the second
  are refused, so one run completes and one fails.\<close>

theorem completed_batch_counts_witness:
  "state_of (world_after ex_env (new_world ex_sockets Map.empty
          (ex_faults(''artifacts/batch_0_x_zap/batch_0_x_zap_run_1_raw.txt'' := [''EACCES: permission denied'', ''EACCES: permission denied''])))
       [Create (ex_config 2) 0 ''x'', Start ''batch_0_x_zap'' 1, Exit ''batch_0_x_zap'' 0 (Exited 0) 5,
        Exit ''batch_0_x_zap'' 1 (Exited 0) 5, Resume ''batch_0_x_zap'' 1 6, Resume ''batch_0_x_zap'' 0 6,
        Finalize ''batch_0_x_zap'' 7]) ''batch_0_x_zap'' = Some BatchCompleted
   \<and> counters_of (world_after ex_env (new_world ex_sockets Map.empty
          (ex_faults(''artifacts/batch_0_x_zap/batch_0_x_zap_run_1_raw.txt'' := [''EACCES: permission denied'', ''EACCES: permission denied''])))
       [Create (ex_config 2) 0 ''x'', Start ''batch_0_x_zap'' 1, Exit ''batch_0_x_zap'' 0 (Exited 0) 5,
        Exit ''batch_0_x_zap'' 1 (Exited 0) 5, Resume ''batch_0_x_zap'' 1 6, Resume ''batch_0_x_zap'' 0 6,
        Finalize ''batch_0_x_zap'' 7]) ''batch_0_x_zap''
     = Some \<lparr>total_p = 2, completed = 1, running = 0, failed = 1\<rparr>"
proof -
  define T where "T = [Create (ex_config 2) 0 ''x'', Start ''batch_0_x_zap'' 1, Exit ''batch_0_x_zap'' 0 (Exited 0) 5,
        Exit ''batch_0_x_zap'' 1 (Exited 0) 5, Resume ''batch_0_x_zap'' 1 6, Resume ''batch_0_x_zap'' 0 6,
        Finalize ''batch_0_x_zap'' 7]"
  define W0 where "W0 = new_world ex_sockets Map.empty
          (ex_faults(''artifacts/batch_0_x_zap/batch_0_x_zap_run_1_raw.txt'' := [''EACCES: permission denied'', ''EACCES: permission denied'']))"
  have v: "(let w = world_after ex_env W0 T
            in (state_of w ''batch_0_x_zap'', counters_of w ''batch_0_x_zap'',
                map_option (\<lambda>b. repetitions (config b)) (batches w ''batch_0_x_zap'')))
           = (Some BatchCompleted, Some \<lparr>total_p = 2, completed = 1, running = 0, failed = 1\<rparr>, Some 2)"
    unfolding T_def W0_def by (simp add: exec_defs cong: exec_congs)
  note v' = v [unfolded Let_def prod.inject]
  from v' have s: "state_of (world_after ex_env W0 T) ''batch_0_x_zap'' = Some BatchCompleted"
    and c: "counters_of (world_after ex_env W0 T) ''batch_0_x_zap''
             = Some \<lparr>total_p = 2, completed = 1, running = 0, failed = 1\<rparr>"
    and r: "map_option (\<lambda>b. repetitions (config b)) (batches (world_after ex_env W0 T) ''batch_0_x_zap'') = Some 2"
    by blast+
  from counters_after [OF c [unfolded W0_def]] obtain w b where
    w: "run_events ex_env W0 T = Some w" "batches w ''batch_0_x_zap'' = Some b"
       "world_after ex_env W0 T = w"
    unfolding W0_def by blast
  have "bstatus b = BatchCompleted" "1 \<le> repetitions (config b)"
    using s r w by (simp_all add: state_of_def)
  from completed_batch_counts [OF w(1) [unfolded W0_def] w(2) this]
  have "completed (progress b) + failed (progress b) = repetitions (config b)" by blast
  with c s show ?thesis unfolding T_def W0_def by blast
qed

section \<open>A run whose executor crashes\<close>

text \<open>
  C3 as stated fails: the executor of the only run of a batch exits with code 1, and
  the run ends in status \<open>completed\<close> with no \<open>error\<close> field; the counter of failed runs
  stays at 0 (the batch does reach \<open>completed\<close>).
\<close>

theorem crashed_run_not_failed:
  "run_states (world_after ex_env ex_world
      [Create (ex_config 1) 0 ''x'', Start ''batch_0_x_zap'' 1,
       Exit ''batch_0_x_zap'' 0 (Rejected (Some 1) ''Command failed with exit code 1'') 5,
       Resume ''batch_0_x_zap'' 0 6, Finalize ''batch_0_x_zap'' 7]) ''batch_0_x_zap'' = [RunCompleted]
   \<and> run_errors (world_after ex_env ex_world
      [Create (ex_config 1) 0 ''x'', Start ''batch_0_x_zap'' 1,
       Exit ''batch_0_x_zap'' 0 (Rejected (Some 1) ''Command failed with exit code 1'') 5,
       Resume ''batch_0_x_zap'' 0 6, Finalize ''batch_0_x_zap'' 7]) ''batch_0_x_zap'' = [None]
   \<and> counters_of (world_after ex_env ex_world
      [Create (ex_config 1) 0 ''x'', Start ''batch_0_x_zap'' 1,
       Exit ''batch_0_x_zap'' 0 (Rejected (Some 1) ''Command failed with exit code 1'') 5,
       Resume ''batch_0_x_zap'' 0 6, Finalize ''batch_0_x_zap'' 7]) ''batch_0_x_zap''
     = Some \<lparr>total_p = 1, completed = 1, running = 0, failed = 0\<rparr>
   \<and> state_of (world_after ex_env ex_world
      [Create (ex_config 1) 0 ''x'', Start ''batch_0_x_zap'' 1,
       Exit ''batch_0_x_zap'' 0 (Rejected (Some 1) ''Command failed with exit code 1'') 5,
       Resume ''batch_0_x_zap'' 0 6, Finalize ''batch_0_x_zap'' 7]) ''batch_0_x_zap'' = Some BatchCompleted"
proof -
  have v: "(let w = world_after ex_env ex_world
      [Create (ex_config 1) 0 ''x'', Start ''batch_0_x_zap'' 1,
       Exit ''batch_0_x_zap'' 0 (Rejected (Some 1) ''Command failed with exit code 1'') 5,
       Resume ''batch_0_x_zap'' 0 6, Finalize ''batch_0_x_zap'' 7]
     in (run_states w ''batch_0_x_zap'', run_errors w ''batch_0_x_zap'', counters_of w ''batch_0_x_zap'',
         state_of w ''batch_0_x_zap''))
     = ([RunCompleted], [None], Some \<lparr>total_p = 1, completed = 1, running = 0, failed = 0\<rparr>, Some BatchCompleted)"
    by (simp add: exec_defs cong: exec_congs)
  show ?thesis using v [unfolded Let_def prod.inject] .
qed

text \<open>
  C3, amended. In every state of every execution in which a run is awaiting its
  executor and its raw artifact can be written: when the executor exits with a crash
  code, \<open>runScan\<close> absorbs the failure, and the run ends in status \<open>completed\<close>; its
  result has \<open>success = false\<close>, the exit code and the message of the executor as
  \<open>error\<close>, and the captured output; the \<open>error\<close> field of the run is left as it was;
  the run is counted in \<open>completed\<close> and not in \<open>failed\<close>; and the execution can be
  continued until the batch has status \<open>completed\<close>.
\<close>

theorem crashed_run_is_completed:
  assumes reach: "run_events env (new_world socks fs flt) evs = Some w"
    and x: "batches w batchId = Some b" and k: "k < length (tasks w batchId)"
    and tk: "tasks w batchId ! k = (i, Scanning st out err)"
    and ok: "faulty w (raw_path batchId (run_id batchId i)) = []"
  shows "\<exists>w' b' res.
           run_events env w [Exit batchId k (Rejected c m) t, Resume batchId k t'] = Some w'
         \<and> batches w' batchId = Some b'
         \<and> status (runStatuses b' ! i) = RunCompleted
         \<and> result (runStatuses b' ! i) = Some res
         \<and> \<not> success res \<and> rerror res = Some m \<and> exitCode res = c \<and> stdout res = out
         \<and> error (runStatuses b' ! i) = error (runStatuses b ! i)
         \<and> completed (progress b') = completed (progress b) + 1
         \<and> failed (progress b') = failed (progress b)
         \<and> running (progress b') = running (progress b) - 1
         \<and> (\<exists>evs' w'' b''. run_events env w' evs' = Some w'' \<and> batches w'' batchId = Some b''
                \<and> bstatus b'' = BatchCompleted)"
proof -
  let ?w' = "resume (on_exit w batchId k (Rejected c m) t) batchId k t'"
  have inv: "world_inv w" using reach by (rule reachable_inv)
  have bi: "batch_inv 3 b (tasks w batchId)" using inv x by (rule world_inv_batch)
  have i: "i < length (runStatuses b)"
    using core_inv_index [of 3 b "tasks w batchId" k] bi k tk by (simp add: batch_inv_def)
  have ev: "run_events env w [Exit batchId k (Rejected c m) t, Resume batchId k t'] = Some ?w'"
    using k tk by (rule exit_resume_events)
  have inv': "world_inv ?w'" using inv ev by (rule run_events_inv)
  note b' = exit_then_resume [OF x k tk i, of "Rejected c m" t t', unfolded runScan_settle_ok [OF ok]]
  from can_complete [OF inv', of batchId _ env] b'
  obtain evs' w'' b'' where "run_events env ?w' evs' = Some w''" "batches w'' batchId = Some b''"
    "bstatus b'' = BatchCompleted" by auto
  then show ?thesis
    using ev b' i by (intro exI conjI) (assumption | simp)+
qed

theorem crashed_run_is_completed_witness:
  "run_events ex_env (new_world ex_sockets Map.empty ex_faults) [Create (ex_config 1) 0 ''x'', Start ''batch_0_x_zap'' 1]
     = Some (world_after ex_env (new_world ex_sockets Map.empty ex_faults) [Create (ex_config 1) 0 ''x'', Start ''batch_0_x_zap'' 1])
   \<and> tasks (world_after ex_env (new_world ex_sockets Map.empty ex_faults) [Create (ex_config 1) 0 ''x'', Start ''batch_0_x_zap'' 1])
        ''batch_0_x_zap'' = [(0, Scanning 1 [] [])]
   \<and> faulty (world_after ex_env (new_world ex_sockets Map.empty ex_faults) [Create (ex_config 1) 0 ''x'', Start ''batch_0_x_zap'' 1])
        (raw_path ''batch_0_x_zap'' (run_id ''batch_0_x_zap'' 0)) = []
   \<and> (\<exists>w' b' res.
         run_events ex_env (world_after ex_env (new_world ex_sockets Map.empty ex_faults) [Create (ex_config 1) 0 ''x'', Start ''batch_0_x_zap'' 1])
           [Exit ''batch_0_x_zap'' 0 (Rejected (Some 1) ''Command failed with exit code 1'') 5, Resume ''batch_0_x_zap'' 0 6] = Some w'
         \<and> batches w' ''batch_0_x_zap'' = Some b'
         \<and> status (runStatuses b' ! 0) = RunCompleted
         \<and> result (runStatuses b' ! 0) = Some res
         \<and> \<not> success res \<and> rerror res = Some ''Command failed with exit code 1'' \<and> exitCode res = Some 1
         \<and> completed (progress b') = 1 \<and> failed (progress b') = 0 \<and> running (progress b') = 0
         \<and> (\<exists>evs' w'' b''. run_events ex_env w' evs' = Some w'' \<and> batches w'' ''batch_0_x_zap'' = Some b''
                \<and> bstatus b'' = BatchCompleted))"
proof -
  define T where "T = [Create (ex_config 1) 0 ''x'', Start ''batch_0_x_zap'' 1]"
  define W where "W = world_after ex_env (new_world ex_sockets Map.empty ex_faults) T"
  have v: "(let w = world_after ex_env (new_world ex_sockets Map.empty ex_faults) T
            in (counters_of w ''batch_0_x_zap'', tasks w ''batch_0_x_zap'',
                faulty w (raw_path ''batch_0_x_zap'' (run_id ''batch_0_x_zap'' 0))))
           = (Some \<lparr>total_p = 1, completed = 0, running = 1, failed = 0\<rparr>, [(0, Scanning 1 [] [])], [])"
    unfolding T_def by (simp add: exec_defs cong: exec_congs)
  note v' = v [unfolded Let_def prod.inject, folded W_def]
  from v' have c: "counters_of W ''batch_0_x_zap'' = Some \<lparr>total_p = 1, completed = 0, running = 1, failed = 0\<rparr>"
    and ts: "tasks W ''batch_0_x_zap'' = [(0, Scanning 1 [] [])]"
    and ok: "faulty W (raw_path ''batch_0_x_zap'' (run_id ''batch_0_x_zap'' 0)) = []"
    by blast+
  from counters_after [OF c [unfolded W_def]] obtain b where
    w: "run_events ex_env (new_world ex_sockets Map.empty ex_faults) T = Some W" "batches W ''batch_0_x_zap'' = Some b"
       "progress b = \<lparr>total_p = 1, completed = 0, running = 1, failed = 0\<rparr>"
    unfolding W_def by blast
  have k: "0 < length (tasks W ''batch_0_x_zap'')" and tk: "tasks W ''batch_0_x_zap'' ! 0 = (0, Scanning 1 [] [])"
    unfolding ts by simp_all
  from crashed_run_is_completed [OF w(1) w(2) k tk ok, of "Some 1" "''Command failed with exit code 1''" 5 6]
  obtain w' b' res where f:
    "run_events ex_env W [Exit ''batch_0_x_zap'' 0 (Rejected (Some 1) ''Command failed with exit code 1'') 5,
        Resume ''batch_0_x_zap'' 0 6] = Some w'"
    "batches w' ''batch_0_x_zap'' = Some b'" "status (runStatuses b' ! 0) = RunCompleted"
    "result (runStatuses b' ! 0) = Some res" "\<not> success res"
    "rerror res = Some ''Command failed with exit code 1''" "exitCode res = Some 1"
    "completed (progress b') = completed (progress b) + 1" "failed (progress b') = failed (progress b)"
    "running (progress b') = running (progress b) - 1"
    "\<exists>evs' w'' b''. run_events ex_env w' evs' = Some w'' \<and> batches w'' ''batch_0_x_zap'' = Some b''
                \<and> bstatus b'' = BatchCompleted"
    by blast
  have n: "completed (progress b') = 1" "failed (progress b') = 0" "running (progress b') = 0"
    unfolding f(8,9,10) w(3) by simp_all
  have concl: "\<exists>w' b' res.
         run_events ex_env W
           [Exit ''batch_0_x_zap'' 0 (Rejected (Some 1) ''Command failed with exit code 1'') 5, Resume ''batch_0_x_zap'' 0 6] = Some w'
         \<and> batches w' ''batch_0_x_zap'' = Some b'
         \<and> status (runStatuses b' ! 0) = RunCompleted
         \<and> result (runStatuses b' ! 0) = Some res
         \<and> \<not> success res \<and> rerror res = Some ''Command failed with exit code 1'' \<and> exitCode res = Some 1
         \<and> completed (progress b') = 1 \<and> failed (progress b') = 0 \<and> running (progress b') = 0
         \<and> (\<exists>evs' w'' b''. run_events ex_env w' evs' = Some w'' \<and> batches w'' ''batch_0_x_zap'' = Some b''
                \<and> bstatus b'' = BatchCompleted)"
    using f(1-7,11) n by blast
  show ?thesis
    unfolding T_def [symmetric] W_def [symmetric]
    using w(1) ts ok concl by blast
qed

section \<open>Two batches at once\<close>

text \<open>
  C4 fails on the code: \<open>scheduleRun\<close> compares the cap of the manager with the counter of
  its own batch. Two batches of three runs each, created and started on one manager
  before any executor exits, have six runs in state \<open>running\<close> while \<open>maxConcurrent\<close> is 3.
\<close>

theorem two_batches_exceed_cap:
  "total_running (world_after ex_env ex_world
      [Create (ex_config 3) 0 ''x'', Create (ex_config 3) 0 ''y'',
       Start ''batch_0_x_zap'' 1, Start ''batch_0_y_zap'' 1]) [''batch_0_x_zap'', ''batch_0_y_zap''] = 6
   \<and> active_count (world_after ex_env ex_world
      [Create (ex_config 3) 0 ''x'', Create (ex_config 3) 0 ''y'',
       Start ''batch_0_x_zap'' 1, Start ''batch_0_y_zap'' 1]) ''batch_0_x_zap'' = 3
   \<and> active_count (world_after ex_env ex_world
      [Create (ex_config 3) 0 ''x'', Create (ex_config 3) 0 ''y'',
       Start ''batch_0_x_zap'' 1, Start ''batch_0_y_zap'' 1]) ''batch_0_y_zap'' = 3
   \<and> maxConcurrent (world_after ex_env ex_world
      [Create (ex_config 3) 0 ''x'', Create (ex_config 3) 0 ''y'',
       Start ''batch_0_x_zap'' 1, Start ''batch_0_y_zap'' 1]) = 3"
proof -
  have v: "(let w = world_after ex_env ex_world
      [Create (ex_config 3) 0 ''x'', Create (ex_config 3) 0 ''y'',
       Start ''batch_0_x_zap'' 1, Start ''batch_0_y_zap'' 1]
     in (total_running w [''batch_0_x_zap'', ''batch_0_y_zap''], active_count w ''batch_0_x_zap'',
         active_count w ''batch_0_y_zap'', maxConcurrent w))
     = (6, 3, 3, 3)"
    by (simp add: exec_defs cong: exec_congs)
  show ?thesis using v [unfolded Let_def prod.inject] .
qed

section \<open>Creation of a batch\<close>




section \<open>The supervisor and the outcome of the executor\<close>

text \<open>
  C9 as stated fails: \<open>runScan\<close> can reject. The executor exits with code 0, the file
  system refuses the write of the raw artifact in the \<^verbatim>\<open>try\<close> block and again in the
  handler, whose write is not protected: \<open>runScan\<close> rejects with the exception of the
  file system and no artifact is written. In \<open>scheduleRun\<close> the run of that executor
  ends in status \<open>failed\<close>, counted as failed, with the message of the file system as
  its \<open>error\<close>.
\<close>

theorem runScan_rejects_when_write_fails:
  "snd (runScan ex_refusing_world ''batch_0_x_zap'' ''batch_0_x_zap_run_0'' 1 [(True, ''a'')] (Exited 0) 9) = Inl (FsError ''EISDIR: illegal operation on a directory'')
   \<and> files (fst (runScan ex_refusing_world ''batch_0_x_zap'' ''batch_0_x_zap_run_0'' 1 [(True, ''a'')] (Exited 0) 9)) ''artifacts/batch_0_x_zap/batch_0_x_zap_run_0_raw.txt'' = None
   \<and> run_states (world_after ex_env ex_refusing_world
        [Create (ex_config 1) 0 ''x'', Start ''batch_0_x_zap'' 1, Exit ''batch_0_x_zap'' 0 (Exited 0) 5, Resume ''batch_0_x_zap'' 0 6]) ''batch_0_x_zap''
       = [RunFailed]
   \<and> run_errors (world_after ex_env ex_refusing_world
        [Create (ex_config 1) 0 ''x'', Start ''batch_0_x_zap'' 1, Exit ''batch_0_x_zap'' 0 (Exited 0) 5, Resume ''batch_0_x_zap'' 0 6]) ''batch_0_x_zap''
       = [Some ''EISDIR: illegal operation on a directory'']
   \<and> counters_of (world_after ex_env ex_refusing_world
        [Create (ex_config 1) 0 ''x'', Start ''batch_0_x_zap'' 1, Exit ''batch_0_x_zap'' 0 (Exited 0) 5, Resume ''batch_0_x_zap'' 0 6]) ''batch_0_x_zap''
       = Some \<lparr>total_p = 1, completed = 0, running = 0, failed = 1\<rparr>"
proof -
  have r: "(let r = runScan ex_refusing_world ''batch_0_x_zap'' ''batch_0_x_zap_run_0'' 1 [(True, ''a'')] (Exited 0) 9
            in (snd r, files (fst r) ''artifacts/batch_0_x_zap/batch_0_x_zap_run_0_raw.txt''))
           = (Inl (FsError ''EISDIR: illegal operation on a directory''), None)"
    by (simp add: runScan_def ex_refusing_world_def exec_defs cong: exec_congs)
  have v: "(let w = world_after ex_env ex_refusing_world
        [Create (ex_config 1) 0 ''x'', Start ''batch_0_x_zap'' 1, Exit ''batch_0_x_zap'' 0 (Exited 0) 5, Resume ''batch_0_x_zap'' 0 6]
     in (run_states w ''batch_0_x_zap'', run_errors w ''batch_0_x_zap'', counters_of w ''batch_0_x_zap''))
     = ([RunFailed], [Some ''EISDIR: illegal operation on a directory''], Some \<lparr>total_p = 1, completed = 0, running = 0, failed = 1\<rparr>)"
    by (simp add: ex_refusing_world_def exec_defs cong: exec_congs)
  show ?thesis
    using r [unfolded Let_def prod.inject] v [unfolded Let_def prod.inject] by blast
qed

text \<open>
  C9, amended. For every outcome of the executor (exit, non-zero exit, failure to start),
  every sequence of chunks and every clock: provided the raw artifact can be written,
  \<open>runScan\<close> resolves with a result that holds the exit code, the accumulated standard
  output and standard error, the duration and the success flag (\<open>false\<close> together with
  the message of the executor when the executor was rejected), and the artifact file
  then holds the accumulated standard output, in the success branch and in the failure
  branch alike. When the write in the \<^verbatim>\<open>try\<close> block is refused and the write of the
  handler succeeds, \<open>runScan\<close> resolves as well, with the artifact written, but with
  \<open>success = false\<close> and the message of the file system, although the executor exited.
  Whenever \<open>runScan\<close> rejects, it rejects with an exception of the file system on the path
  of the artifact, never with the error of the executor, and it has written nothing.
  Hence in \<open>scheduleRun\<close> a run whose artifact can be written ends in status \<open>completed\<close>
  and leaves the counter of failed runs alone, whatever the executor did; and a run that
  has been awaiting its executor ends in status \<open>failed\<close> only with a message of the file
  system as its \<open>error\<close>.
\<close>

theorem runScan_absorbs_executor_outcome:
  "(faulty w (raw_path batchId rid) = [] \<longrightarrow>
      (\<exists>w' res. runScan w batchId rid st chunks oc t = (w', Inr res)
         \<and> files w' (raw_path batchId rid) = Some (stdout res)
         \<and> stdout res = concat (map snd (filter fst chunks))
         \<and> stderr res = concat (map snd (filter (\<lambda>c. \<not> fst c) chunks))
         \<and> duration res = t - st
         \<and> (case oc of
               Exited c \<Rightarrow> success res \<and> exitCode res = Some c \<and> rerror res = None
             | Rejected c m \<Rightarrow> \<not> success res \<and> exitCode res = c \<and> rerror res = Some m)))
   \<and> (faulty w (raw_path batchId rid) = [fsm] \<longrightarrow>
      (\<exists>w' res. runScan w batchId rid st chunks (Exited ec) t = (w', Inr res)
         \<and> files w' (raw_path batchId rid) = Some (stdout res)
         \<and> stdout res = concat (map snd (filter fst chunks))
         \<and> \<not> success res \<and> exitCode res = None \<and> rerror res = Some fsm))
   \<and> (\<forall>w' e. runScan w batchId rid st chunks oc t = (w', Inl e) \<longrightarrow>
         (\<exists>m. e = FsError m \<and> m \<in> set (faulty w (raw_path batchId rid))) \<and> files w' = files w)
   \<and> (k < length (tasks w batchId) \<and> tasks w batchId ! k = (i, Scanning st out err)
        \<and> batches w batchId = Some b \<and> i < length (runStatuses b) \<longrightarrow>
        (faulty w (raw_path batchId (run_id batchId i)) = [] \<longrightarrow>
           run_states (resume (on_exit w batchId k oc t) batchId k t') batchId ! i = RunCompleted
           \<and> map_option failed (counters_of (resume (on_exit w batchId k oc t) batchId k t') batchId)
               = Some (failed (progress b)))
        \<and> (run_states (resume (on_exit w batchId k oc t) batchId k t') batchId ! i = RunFailed \<longrightarrow>
           (\<exists>m. m \<in> set (faulty w (raw_path batchId (run_id batchId i)))
              \<and> run_errors (resume (on_exit w batchId k oc t) batchId k t') batchId ! i = Some m)))"
proof (intro conjI impI allI)
  assume ok: "faulty w (raw_path batchId rid) = []"
  show "\<exists>w' res. runScan w batchId rid st chunks oc t = (w', Inr res)
         \<and> files w' (raw_path batchId rid) = Some (stdout res)
         \<and> stdout res = concat (map snd (filter fst chunks))
         \<and> stderr res = concat (map snd (filter (\<lambda>c. \<not> fst c) chunks))
         \<and> duration res = t - st
         \<and> (case oc of
               Exited c \<Rightarrow> success res \<and> exitCode res = Some c \<and> rerror res = None
             | Rejected c m \<Rightarrow> \<not> success res \<and> exitCode res = c \<and> rerror res = Some m)"
    unfolding runScan_def runScan_settle_ok [OF ok] by (cases oc) simp_all
next
  assume once: "faulty w (raw_path batchId rid) = [fsm]"
  show "\<exists>w' res. runScan w batchId rid st chunks (Exited ec) t = (w', Inr res)
         \<and> files w' (raw_path batchId rid) = Some (stdout res)
         \<and> stdout res = concat (map snd (filter fst chunks))
         \<and> \<not> success res \<and> exitCode res = None \<and> rerror res = Some fsm"
    unfolding runScan_def runScan_settle_retry [OF once] by simp
next
  fix w' e
  assume r: "runScan w batchId rid st chunks oc t = (w', Inl e)"
  show "\<exists>m. e = FsError m \<and> m \<in> set (faulty w (raw_path batchId rid))"
    using runScan_settle_rejects [OF r [unfolded runScan_def]] by blast
  show "files w' = files w"
    using runScan_settle_rejects [OF r [unfolded runScan_def]] by blast
next
  assume h: "k < length (tasks w batchId) \<and> tasks w batchId ! k = (i, Scanning st out err)
        \<and> batches w batchId = Some b \<and> i < length (runStatuses b)"
  then have e: "batches (resume (on_exit w batchId k oc t) batchId k t') batchId =
          Some (dec_running
           (case snd (runScan_settle w batchId (run_id batchId i) st out err oc t) of
              Inr res \<Rightarrow>
                inc_completed (upd_run i (\<lambda>r. r\<lparr>status := RunCompleted, completedAt := Some t',
                                     rduration := Some (duration res), result := Some res\<rparr>)
                   (b\<lparr>runs := runs b @ [\<lparr>e_runIndex = i, e_runId = run_id batchId i, e_result = Some res,
                                          e_error = None, e_completedAt = t'\<rparr>]\<rparr>))
            | Inl e \<Rightarrow>
                (upd_run i (\<lambda>r. r\<lparr>status := RunFailed, completedAt := Some t',
                                     error := Some (err_message e)\<rparr>) (inc_failed b))
                   \<lparr>runs := runs b @ [\<lparr>e_runIndex = i, e_runId = run_id batchId i, e_result = None,
                                       e_error = Some (err_message e), e_completedAt = t'\<rparr>]\<rparr>))"
    using exit_then_resume by blast
  {
    assume ok: "faulty w (raw_path batchId (run_id batchId i)) = []"
    show "run_states (resume (on_exit w batchId k oc t) batchId k t') batchId ! i = RunCompleted"
      using h by (simp add: run_states_def e runScan_settle_ok [OF ok])
    show "map_option failed (counters_of (resume (on_exit w batchId k oc t) batchId k t') batchId)
               = Some (failed (progress b))"
      using h by (simp add: counters_of_def e runScan_settle_ok [OF ok])
  }
  {
    assume f: "run_states (resume (on_exit w batchId k oc t) batchId k t') batchId ! i = RunFailed"
    obtain w1 r where s: "runScan_settle w batchId (run_id batchId i) st out err oc t = (w1, r)"
      by (cases "runScan_settle w batchId (run_id batchId i) st out err oc t")
    show "\<exists>m. m \<in> set (faulty w (raw_path batchId (run_id batchId i)))
              \<and> run_errors (resume (on_exit w batchId k oc t) batchId k t') batchId ! i = Some m"
    proof (cases r)
      case (Inr res)
      then have False using f h by (simp add: run_states_def e s)
      then show ?thesis ..
    next
      case (Inl x)
      from runScan_settle_rejects [OF s [unfolded Inl]] obtain m where
        m: "x = FsError m" "m \<in> set (faulty w (raw_path batchId (run_id batchId i)))" by blast
      have "run_errors (resume (on_exit w batchId k oc t) batchId k t') batchId ! i = Some m"
        using h by (simp add: run_errors_def e s Inl m(1) err_message_def)
      with m(2) show ?thesis by blast
    qed
  }
qed

theorem runScan_absorbs_executor_outcome_witness:
  "faulty ex_world (raw_path ''batch_0_x_zap'' ''batch_0_x_zap_run_0'') = []
   \<and> (\<exists>w' res. runScan ex_world ''batch_0_x_zap'' ''batch_0_x_zap_run_0'' 1
                   [(True, ''a''), (False, ''e''), (True, ''b'')] (Rejected None ''spawn ENOENT'') 9 = (w', Inr res)
         \<and> files w' (raw_path ''batch_0_x_zap'' ''batch_0_x_zap_run_0'') = Some ''ab''
         \<and> stdout res = ''ab'' \<and> stderr res = ''e'' \<and> duration res = 8
         \<and> \<not> success res \<and> exitCode res = None \<and> rerror res = Some ''spawn ENOENT'')
   \<and> faulty (new_world ex_sockets Map.empty (ex_faults(''artifacts/batch_0_x_zap/batch_0_x_zap_run_0_raw.txt'' := [''EISDIR: illegal operation on a directory'']))) (raw_path ''batch_0_x_zap'' ''batch_0_x_zap_run_0'') = [''EISDIR: illegal operation on a directory'']
   \<and> (\<exists>w' res. runScan (new_world ex_sockets Map.empty (ex_faults(''artifacts/batch_0_x_zap/batch_0_x_zap_run_0_raw.txt'' := [''EISDIR: illegal operation on a directory'']))) ''batch_0_x_zap'' ''batch_0_x_zap_run_0'' 1
                   [(True, ''a'')] (Exited 0) 9 = (w', Inr res)
         \<and> files w' (raw_path ''batch_0_x_zap'' ''batch_0_x_zap_run_0'') = Some ''a''
         \<and> \<not> success res \<and> exitCode res = None \<and> rerror res = Some ''EISDIR: illegal operation on a directory'')
   \<and> snd (runScan ex_refusing_world ''batch_0_x_zap'' ''batch_0_x_zap_run_0'' 1 [(True, ''a'')] (Rejected (Some 1) ''Command failed with exit code 1'') 9)
       = Inl (FsError ''EISDIR: illegal operation on a directory'')
   \<and> files (fst (runScan ex_refusing_world ''batch_0_x_zap'' ''batch_0_x_zap_run_0'' 1 [(True, ''a'')]
                    (Rejected (Some 1) ''Command failed with exit code 1'') 9))
       = files ex_refusing_world
   \<and> run_states (resume (on_exit (world_after ex_env ex_world [Create (ex_config 1) 0 ''x'', Start ''batch_0_x_zap'' 1])
        ''batch_0_x_zap'' 0 (Rejected (Some 1) ''Command failed with exit code 1'') 5) ''batch_0_x_zap'' 0 6) ''batch_0_x_zap'' ! 0 = RunCompleted
   \<and> run_states (resume (on_exit (world_after ex_env ex_refusing_world [Create (ex_config 1) 0 ''x'', Start ''batch_0_x_zap'' 1])
        ''batch_0_x_zap'' 0 (Rejected (Some 1) ''Command failed with exit code 1'') 5) ''batch_0_x_zap'' 0 6) ''batch_0_x_zap'' ! 0 = RunFailed
   \<and> run_errors (resume (on_exit (world_after ex_env ex_refusing_world [Create (ex_config 1) 0 ''x'', Start ''batch_0_x_zap'' 1])
        ''batch_0_x_zap'' 0 (Rejected (Some 1) ''Command failed with exit code 1'') 5) ''batch_0_x_zap'' 0 6) ''batch_0_x_zap'' ! 0 = Some ''EISDIR: illegal operation on a directory''"
proof -
  define G where "G = new_world ex_sockets Map.empty (ex_faults(''artifacts/batch_0_x_zap/batch_0_x_zap_run_0_raw.txt'' := [''EISDIR: illegal operation on a directory'']))"
  define W where "W = world_after ex_env ex_world [Create (ex_config 1) 0 ''x'', Start ''batch_0_x_zap'' 1]"
  define V where "V = world_after ex_env ex_refusing_world [Create (ex_config 1) 0 ''x'', Start ''batch_0_x_zap'' 1]"
  define oc where "oc = Rejected (Some 1) ''Command failed with exit code 1''"
  have p: "raw_path ''batch_0_x_zap'' ''batch_0_x_zap_run_0'' = ''artifacts/batch_0_x_zap/batch_0_x_zap_run_0_raw.txt''"
    and q: "run_id ''batch_0_x_zap'' 0 = ''batch_0_x_zap_run_0''"
    by (simp_all add: raw_path_def path_join_def ARTIFACTS_DIR_def run_id_def)
  have ok: "faulty ex_world (raw_path ''batch_0_x_zap'' ''batch_0_x_zap_run_0'') = []"
    by (simp add: ex_world_def new_world_def ex_faults_def)
  have once: "faulty G (raw_path ''batch_0_x_zap'' ''batch_0_x_zap_run_0'') = [''EISDIR: illegal operation on a directory'']"
    by (simp add: p G_def new_world_def)
  have twice: "faulty ex_refusing_world (raw_path ''batch_0_x_zap'' ''batch_0_x_zap_run_0'') = [''EISDIR: illegal operation on a directory'', ''EISDIR: illegal operation on a directory'']"
    by (simp add: p ex_refusing_world_def new_world_def)
  note t1 = runScan_absorbs_executor_outcome [where batchId = "''batch_0_x_zap''" and rid = "''batch_0_x_zap_run_0''" and w = ex_world
      and st = 1 and chunks = "[(True, ''a''), (False, ''e''), (True, ''b'')]"
      and oc = "Rejected None ''spawn ENOENT''" and t = 9]
  from t1 [THEN conjunct1, THEN mp, OF ok]
  obtain w' res where r: "runScan ex_world ''batch_0_x_zap'' ''batch_0_x_zap_run_0'' 1
                   [(True, ''a''), (False, ''e''), (True, ''b'')] (Rejected None ''spawn ENOENT'') 9 = (w', Inr res)"
      "files w' (raw_path ''batch_0_x_zap'' ''batch_0_x_zap_run_0'') = Some (stdout res)"
      "stdout res = ''ab''" "stderr res = ''e''" "duration res = 8"
      "\<not> success res" "exitCode res = None" "rerror res = Some ''spawn ENOENT''"
    by (elim exE conjE) simp
  have 1: "\<exists>w' res. runScan ex_world ''batch_0_x_zap'' ''batch_0_x_zap_run_0'' 1
                   [(True, ''a''), (False, ''e''), (True, ''b'')] (Rejected None ''spawn ENOENT'') 9 = (w', Inr res)
         \<and> files w' (raw_path ''batch_0_x_zap'' ''batch_0_x_zap_run_0'') = Some ''ab''
         \<and> stdout res = ''ab'' \<and> stderr res = ''e'' \<and> duration res = 8
         \<and> \<not> success res \<and> exitCode res = None \<and> rerror res = Some ''spawn ENOENT''"
    using r(1) r(2) [unfolded r(3)] r(3-8) by blast
  note t2 = runScan_absorbs_executor_outcome [where batchId = "''batch_0_x_zap''" and rid = "''batch_0_x_zap_run_0''" and w = G
      and st = 1 and chunks = "[(True, ''a'')]" and ec = 0 and fsm = "''EISDIR: illegal operation on a directory''" and t = 9]
  from t2 [THEN conjunct2, THEN conjunct1, THEN mp, OF once]
  obtain w2 res2 where r2: "runScan G ''batch_0_x_zap'' ''batch_0_x_zap_run_0'' 1 [(True, ''a'')] (Exited 0) 9 = (w2, Inr res2)"
      "files w2 (raw_path ''batch_0_x_zap'' ''batch_0_x_zap_run_0'') = Some (stdout res2)" "stdout res2 = ''a''"
      "\<not> success res2" "exitCode res2 = None" "rerror res2 = Some ''EISDIR: illegal operation on a directory''"
    by (elim exE conjE) simp
  have 2: "\<exists>w' res. runScan G ''batch_0_x_zap'' ''batch_0_x_zap_run_0'' 1 [(True, ''a'')] (Exited 0) 9 = (w', Inr res)
         \<and> files w' (raw_path ''batch_0_x_zap'' ''batch_0_x_zap_run_0'') = Some ''a''
         \<and> \<not> success res \<and> exitCode res = None \<and> rerror res = Some ''EISDIR: illegal operation on a directory''"
    using r2(1) r2(2) [unfolded r2(3)] r2(4-6) by blast
  have s3: "snd (runScan ex_refusing_world ''batch_0_x_zap'' ''batch_0_x_zap_run_0'' 1 [(True, ''a'')] oc 9) = Inl (FsError ''EISDIR: illegal operation on a directory'')"
    unfolding oc_def by (simp add: runScan_def ex_refusing_world_def exec_defs cong: exec_congs)
  then have h3: "runScan ex_refusing_world ''batch_0_x_zap'' ''batch_0_x_zap_run_0'' 1 [(True, ''a'')] oc 9
        = (fst (runScan ex_refusing_world ''batch_0_x_zap'' ''batch_0_x_zap_run_0'' 1 [(True, ''a'')] oc 9), Inl (FsError ''EISDIR: illegal operation on a directory''))"
    by (metis prod.collapse)
  note t3 = runScan_absorbs_executor_outcome [where batchId = "''batch_0_x_zap''" and rid = "''batch_0_x_zap_run_0''" and w = ex_refusing_world
      and st = 1 and chunks = "[(True, ''a'')]" and oc = oc and t = 9]
  from t3 [THEN conjunct2, THEN conjunct2, THEN conjunct1, rule_format, OF h3]
  have 3: "files (fst (runScan ex_refusing_world ''batch_0_x_zap'' ''batch_0_x_zap_run_0'' 1 [(True, ''a'')] oc 9)) = files ex_refusing_world"
    by blast
  have vw: "(let w = W in (map_option (\<lambda>b. length (runStatuses b)) (batches w ''batch_0_x_zap''),
                           tasks w ''batch_0_x_zap'', faulty w ''artifacts/batch_0_x_zap/batch_0_x_zap_run_0_raw.txt''))
            = (Some 1, [(0, Scanning 1 [] [])], [])"
    unfolding W_def by (simp add: exec_defs cong: exec_congs)
  have vv: "(let w = V in (map_option (\<lambda>b. length (runStatuses b)) (batches w ''batch_0_x_zap''),
                           tasks w ''batch_0_x_zap'', faulty w ''artifacts/batch_0_x_zap/batch_0_x_zap_run_0_raw.txt''))
            = (Some 1, [(0, Scanning 1 [] [])], [''EISDIR: illegal operation on a directory'', ''EISDIR: illegal operation on a directory''])"
    unfolding V_def by (simp add: ex_refusing_world_def exec_defs cong: exec_congs)
  note vw' = vw [unfolded Let_def prod.inject] and vv' = vv [unfolded Let_def prod.inject]
  from vw' obtain bw where bw: "batches W ''batch_0_x_zap'' = Some bw" "length (runStatuses bw) = 1"
    by (cases "batches W ''batch_0_x_zap''") auto
  from vv' obtain bv where bv: "batches V ''batch_0_x_zap'' = Some bv" "length (runStatuses bv) = 1"
    by (cases "batches V ''batch_0_x_zap''") auto
  have hw: "0 < length (tasks W ''batch_0_x_zap'') \<and> tasks W ''batch_0_x_zap'' ! 0 = (0, Scanning 1 [] [])
        \<and> batches W ''batch_0_x_zap'' = Some bw \<and> 0 < length (runStatuses bw)"
    and okw: "faulty W (raw_path ''batch_0_x_zap'' (run_id ''batch_0_x_zap'' 0)) = []"
    using vw' bw by (simp_all add: q p)
  have hv: "0 < length (tasks V ''batch_0_x_zap'') \<and> tasks V ''batch_0_x_zap'' ! 0 = (0, Scanning 1 [] [])
        \<and> batches V ''batch_0_x_zap'' = Some bv \<and> 0 < length (runStatuses bv)"
    and fv: "faulty V (raw_path ''batch_0_x_zap'' (run_id ''batch_0_x_zap'' 0)) = [''EISDIR: illegal operation on a directory'', ''EISDIR: illegal operation on a directory'']"
    using vv' bv by (simp_all add: q p)
  note t4 = runScan_absorbs_executor_outcome [where batchId = "''batch_0_x_zap''" and w = W and st = 1
      and oc = oc and t = 5 and k = 0 and i = 0 and out = "[]" and err = "[]" and b = bw and t' = 6]
  note t5 = runScan_absorbs_executor_outcome [where batchId = "''batch_0_x_zap''" and w = V and st = 1
      and oc = oc and t = 5 and k = 0 and i = 0 and out = "[]" and err = "[]" and b = bv and t' = 6]
  have 4: "run_states (resume (on_exit W ''batch_0_x_zap'' 0 oc 5) ''batch_0_x_zap'' 0 6) ''batch_0_x_zap'' ! 0 = RunCompleted"
    using t4 [THEN conjunct2, THEN conjunct2, THEN conjunct2, THEN mp, OF hw, THEN conjunct1, THEN mp, OF okw]
    by blast
  have f5: "(let w = resume (on_exit V ''batch_0_x_zap'' 0 oc 5) ''batch_0_x_zap'' 0 6 in run_states w ''batch_0_x_zap'') = [RunFailed]"
    unfolding V_def oc_def by (simp add: ex_refusing_world_def exec_defs cong: exec_congs)
  have 5: "run_states (resume (on_exit V ''batch_0_x_zap'' 0 oc 5) ''batch_0_x_zap'' 0 6) ''batch_0_x_zap'' ! 0 = RunFailed"
    using f5 [unfolded Let_def] by simp
  from t5 [THEN conjunct2, THEN conjunct2, THEN conjunct2, THEN mp, OF hv, THEN conjunct2, THEN mp, OF 5]
  obtain m where m: "m \<in> set (faulty V (raw_path ''batch_0_x_zap'' (run_id ''batch_0_x_zap'' 0)))"
      "run_errors (resume (on_exit V ''batch_0_x_zap'' 0 oc 5) ''batch_0_x_zap'' 0 6) ''batch_0_x_zap'' ! 0 = Some m"
    by blast
  have "m = ''EISDIR: illegal operation on a directory''" using m(1) unfolding fv by simp
  then have 6: "run_errors (resume (on_exit V ''batch_0_x_zap'' 0 oc 5) ''batch_0_x_zap'' 0 6) ''batch_0_x_zap'' ! 0 = Some ''EISDIR: illegal operation on a directory''"
    using m(2) by simp
  show ?thesis
    using ok 1 once 2 s3 3 4 5 6 unfolding W_def V_def G_def oc_def by blast
qed

section \<open>Subscription\<close>

text \<open>
  C10. With a batch identifier that is not in the registry, \<open>subscribeClient\<close> changes
  nothing: the observer is not registered and nothing is sent to it, and there is no
  error; \<open>broadcastToBatch\<close> likewise sends nothing. With a known identifier the observer
  is added to the observers of the batch and is sent exactly one message, a
  \<open>batch_status\<close> with the status, the counters and the run statuses of the batch at that
  moment; no other socket is sent anything.
\<close>

theorem subscribe_unknown_is_noop:
  "(batches w batchId = None \<longrightarrow>
      subscribeClient w batchId ws = w \<and> broadcastToBatch w batchId msg = w)
   \<and> (\<forall>b. batches w batchId = Some b \<longrightarrow>
        batches (subscribeClient w batchId ws) batchId = Some (b\<lparr>clients := set_add ws (clients b)\<rparr>)
        \<and> ws \<in> set (set_add ws (clients b))
        \<and> sent (sockets (subscribeClient w batchId ws) ws)
            = sent (sockets w ws) @ [MBatchStatus batchId (bstatus b) (progress b) (runStatuses b)]
        \<and> (\<forall>s. s \<noteq> ws \<longrightarrow> sockets (subscribeClient w batchId ws) s = sockets w s))"
  by (auto simp: subscribeClient_def broadcastToBatch_def Let_def set_add_def)


theorem subscribe_unknown_is_noop_witness:
  "batches ex_world ''batch_9_z_zap'' = None
   \<and> subscribeClient ex_world ''batch_9_z_zap'' 7 = ex_world
   \<and> broadcastToBatch ex_world ''batch_9_z_zap'' (MBatchCompleted ''batch_9_z_zap'') = ex_world
   \<and> state_of (fst (createBatch ex_world (ex_config 2) 0 ''x'')) ''batch_0_x_zap'' = Some BatchCreated
   \<and> sent (sockets (subscribeClient (fst (createBatch ex_world (ex_config 2) 0 ''x'')) ''batch_0_x_zap'' 7) 7)
       = [MBatchStatus ''batch_0_x_zap'' BatchCreated \<lparr>total_p = 2, completed = 0, running = 0, failed = 0\<rparr>
            [new_run_status ''batch_0_x_zap'' 0, new_run_status ''batch_0_x_zap'' 1]]
   \<and> map_option clients (batches (subscribeClient (fst (createBatch ex_world (ex_config 2) 0 ''x'')) ''batch_0_x_zap'' 7)
        ''batch_0_x_zap'') = Some [7]"
proof -
  define W where "W = fst (createBatch ex_world (ex_config 2) 0 ''x'')"
  have n: "batches ex_world ''batch_9_z_zap'' = None"
    by (simp add: ex_world_def new_world_def)
  have v: "(let w = W in (map_option bstatus (batches w ''batch_0_x_zap''),
                          map_option progress (batches w ''batch_0_x_zap''),
                          map_option runStatuses (batches w ''batch_0_x_zap''),
                          map_option clients (batches w ''batch_0_x_zap''),
                          sent (sockets w 7)))
           = (Some BatchCreated, Some \<lparr>total_p = 2, completed = 0, running = 0, failed = 0\<rparr>,
              Some [new_run_status ''batch_0_x_zap'' 0, new_run_status ''batch_0_x_zap'' 1], Some [], [])"
    unfolding W_def
    by (simp add: createBatch_def ensureBatchDirectory_def fs_attempt_def path_join_def ARTIFACTS_DIR_def
        new_batch_id_def show_int_def ex_config_def ex_world_def ex_faults_def new_world_def
        ex_sockets_def ex_socket_def Let_def upt_conv_Cons)
  note v' = v [unfolded Let_def prod.inject]
  from v' obtain b where b: "batches W ''batch_0_x_zap'' = Some b" "bstatus b = BatchCreated"
      "progress b = \<lparr>total_p = 2, completed = 0, running = 0, failed = 0\<rparr>"
      "runStatuses b = [new_run_status ''batch_0_x_zap'' 0, new_run_status ''batch_0_x_zap'' 1]"
      "clients b = []"
    by (cases "batches W ''batch_0_x_zap''") auto
  have s0: "sent (sockets W 7) = []" using v' by blast
  note t1 = subscribe_unknown_is_noop [of ex_world "''batch_9_z_zap''" 7 "MBatchCompleted ''batch_9_z_zap''"]
  note t2 = subscribe_unknown_is_noop [of W "''batch_0_x_zap''" 7 "MBatchCompleted ''batch_0_x_zap''"]
  from t1 n have 1: "subscribeClient ex_world ''batch_9_z_zap'' 7 = ex_world"
    and 2: "broadcastToBatch ex_world ''batch_9_z_zap'' (MBatchCompleted ''batch_9_z_zap'') = ex_world"
    by blast+
  from t2 b(1) have 3: "batches (subscribeClient W ''batch_0_x_zap'' 7) ''batch_0_x_zap''
        = Some (b\<lparr>clients := set_add 7 (clients b)\<rparr>)"
    and 4: "sent (sockets (subscribeClient W ''batch_0_x_zap'' 7) 7)
            = sent (sockets W 7) @ [MBatchStatus ''batch_0_x_zap'' (bstatus b) (progress b) (runStatuses b)]"
    by blast+
  have 5: "state_of W ''batch_0_x_zap'' = Some BatchCreated"
    using b by (simp add: state_of_def)
  have 6: "map_option clients (batches (subscribeClient W ''batch_0_x_zap'' 7) ''batch_0_x_zap'') = Some [7]"
    unfolding 3 using b(5) by (simp add: set_add_def)
  have 7: "sent (sockets (subscribeClient W ''batch_0_x_zap'' 7) 7)
       = [MBatchStatus ''batch_0_x_zap'' BatchCreated \<lparr>total_p = 2, completed = 0, running = 0, failed = 0\<rparr>
            [new_run_status ''batch_0_x_zap'' 0, new_run_status ''batch_0_x_zap'' 1]]"
    unfolding 4 s0 b(2,3,4) by simp
  show ?thesis
    using n 1 2 5 6 7 unfolding W_def by blast
qed

end
